theory Spec2Isabelle
  imports Complex_Main "HOL-Library.Multiset"
begin

section \<open>Content-based article recommendation: the engine and the HTTP function\<close>

text \<open>
  The repository holds the recommendation logic twice: the class \<open>ContentRecommender\<close> of
  \<^verbatim>\<open>my_content/recommendation_engine.py\<close> and the module-level functions of
  \<^verbatim>\<open>azure_function/function_app.py\<close>. Both are embedded here. The functions of the class
  keep their names (without the leading underscore of private methods); the functions of
  the HTTP module carry the prefix \<open>fa_\<close>.

  Scores are Python/numpy floats. They are idealised as \<open>real\<close>: the theorems below use
  the order on scores and the shape of the lists only, and exact values are evaluated only
  at inputs where float arithmetic is exact (products and sums of 0 and 1, small integers).
  The one statement about the values themselves, the range of the cosine, is proved for
  exact arithmetic and evaluated in binary64 arithmetic at an input where rounding shows.
\<close>

subsection \<open>Python values, exceptions and library primitives\<close>

datatype error = ValueError | IndexError | KeyError

text \<open>A cell of a numeric or text column of a DataFrame: an empty CSV cell reads as NaN.\<close>

datatype 'a cell = NaN | Val 'a

text \<open>\<open>xs.index(x)\<close>: the first position of \<open>x\<close>; \<open>None\<close> stands for the ValueError.\<close>

fun index_of :: "'a list \<Rightarrow> 'a \<Rightarrow> nat option" where
  "index_of [] x = None"
| "index_of (y # ys) x = (if y = x then Some 0 else map_option Suc (index_of ys x))"

text \<open>
  \<open>xs[a:b]\<close> for arbitrary integers: a negative bound counts from the end, and both
  bounds are clamped to the list. \<open>DataFrame.head(n)\<close> and \<open>Series.head(n)\<close> are \<open>[0:n]\<close> on
  the rows, also for negative \<open>n\<close> (all rows but the last \<open>-n\<close>).
\<close>

definition py_bound :: "nat \<Rightarrow> int \<Rightarrow> nat" where
  "py_bound n i = (if i < 0 then nat (int n + i) else min n (nat i))"

definition py_slice :: "int \<Rightarrow> int \<Rightarrow> 'a list \<Rightarrow> 'a list" where
  "py_slice a b xs =
     (let lo = py_bound (length xs) a; hi = py_bound (length xs) b
      in take (hi - lo) (drop lo xs))"

text \<open>\<open>Series.unique()\<close>: the distinct values in order of first appearance.\<close>

fun unique_from :: "'a list \<Rightarrow> 'a list \<Rightarrow> 'a list" where
  "unique_from seen [] = []"
| "unique_from seen (x # xs) =
     (if x \<in> set seen then unique_from seen xs else x # unique_from (x # seen) xs)"

definition unique :: "'a list \<Rightarrow> 'a list" where
  "unique xs = unique_from [] xs"

text \<open>
  \<open>numpy.argsort\<close>: the indices that sort the array ascending. Ties are kept in index
  order here (numpy's insertion sort on short arrays does that); numpy does not promise an
  order among equal values, and no universally quantified theorem below relies on one.
\<close>

definition argsort :: "real list \<Rightarrow> nat list" where
  "argsort xs = sort_key (\<lambda>i. xs ! i) [0..<length xs]"

text \<open>
  \<open>sorted(items, key=..., reverse=True)\<close>: Python reverses, sorts stably ascending and
  reverses again, so equal keys keep their original order.
\<close>

definition sorted_reverse :: "('a \<Rightarrow> 'k::linorder) \<Rightarrow> 'a list \<Rightarrow> 'a list" where
  "sorted_reverse key xs = rev (sort_key key (rev xs))"

text \<open>
  \<open>sklearn.metrics.pairwise.cosine_similarity(X, Y)\<close>: every row is divided by its
  Euclidean norm (a zero row is left as it is) and the result holds the dot products of
  the rows of \<open>X\<close> with the rows of \<open>Y\<close>. Input validation raises ValueError for rows
  without any feature. The matrices hold finite numbers and all rows of a matrix have the
  same length, as in a numpy array of floats.
\<close>

definition dot :: "real list \<Rightarrow> real list \<Rightarrow> real" where
  "dot x y = sum_list (map2 (*) x y)"

definition l2_normalize :: "real list \<Rightarrow> real list" where
  "l2_normalize x = (let n = sqrt (dot x x) in if n = 0 then x else map (\<lambda>v. v / n) x)"

definition cosine_similarity :: "real list list \<Rightarrow> real list list \<Rightarrow> error + real list list" where
  "cosine_similarity X Y =
     (if [] \<in> set X \<or> [] \<in> set Y then Inl ValueError
      else Inr (map (\<lambda>x. map (\<lambda>y. dot (l2_normalize x) (l2_normalize y)) Y) X))"

text \<open>A Python loop that builds a list and stops at the first exception.\<close>

fun map_err :: "('a \<Rightarrow> error + 'b) \<Rightarrow> 'a list \<Rightarrow> error + 'b list" where
  "map_err f [] = Inr []"
| "map_err f (x # xs) =
     (case f x of
        Inl e \<Rightarrow> Inl e
      | Inr y \<Rightarrow> (case map_err f xs of Inl e \<Rightarrow> Inl e | Inr ys \<Rightarrow> Inr (y # ys)))"

text \<open>\<open>int(v)\<close> on a cell of a numeric column: \<open>int(nan)\<close> raises ValueError.\<close>

fun py_int :: "int cell \<Rightarrow> error + int" where
  "py_int NaN = Inl ValueError"
| "py_int (Val n) = Inr n"

text \<open>\<open>str(n)\<close> of an integer, as the f-string \<open>f'Article {article_id}'\<close> formats it.\<close>

fun str_nat :: "nat \<Rightarrow> string" where
  "str_nat n =
     (if n < 10 then [''0123456789'' ! n]
      else str_nat (n div 10) @ [''0123456789'' ! (n mod 10)])"

declare str_nat.simps [simp del]

definition str_int :: "int \<Rightarrow> string" where
  "str_int i = (if i < 0 then CHR ''-'' # str_nat (nat (- i)) else str_nat (nat i))"

subsection \<open>The data model\<close>

text \<open>
  A row of \<^verbatim>\<open>articles_metadata.csv\<close>. Only \<open>article_id\<close> is required; for the other columns
  \<open>None\<close> says that the file has no such column (then \<open>Series.get\<close> returns its default).
\<close>

record row =
  col_article_id :: int
  col_title :: "string cell option"
  col_category_id :: "int cell option"
  col_words_count :: "int cell option"

text \<open>A row of the concatenated click files.\<close>

record click =
  user_id :: int
  click_article_id :: int

text \<open>The category of a result: the string \<open>'N/A'\<close> or the catalog's cell.\<close>

datatype category = NA | CategoryId "int cell"

text \<open>The dictionary returned by the catalog lookup, and the same with a score.\<close>

record article_info =
  article_id :: int
  title :: "string cell"
  category :: category
  words_count :: int

record entry = article_info +
  recommendation_score :: real

definition with_score :: "article_info \<Rightarrow> real \<Rightarrow> entry" where
  "with_score info s =
     \<lparr>article_id = article_id info, title = title info, category = category info,
      words_count = words_count info, recommendation_score = s\<rparr>"

text \<open>
  The loaded state: the fields of \<open>ContentRecommender\<close>, and the module globals
  \<open>_article_ids\<close>, \<open>_embeddings\<close>, \<open>_articles_metadata\<close>, \<open>_user_clicks\<close> of the HTTP function.
\<close>

record recommender =
  article_ids :: "int list"
  embeddings :: "real list list"
  articles_metadata :: "row list"
  user_clicks :: "click list"

subsection \<open>Loading (\<open>ContentRecommender._load_data\<close>, \<open>load_data_from_blob\<close>)\<close>

text \<open>
  The unpickled embeddings artifact. A \<open>dict\<close> is its items in insertion order (its
  keys are distinct), a two-element tuple is the identifier list and the matrix, a
  numpy array is the bare matrix; \<open>Other\<close> is any other Python object.
\<close>

datatype embeddings_data =
  EDict "(int \<times> real list) list"
| ETuple "int list" "real list list"
| EArray "real list list"
| EOther

text \<open>\<open>embeddings_data[aid]\<close> on the dictionary.\<close>

definition dict_get :: "(int \<times> 'v) list \<Rightarrow> int \<Rightarrow> error + 'v" where
  "dict_get d k = (case map_of d k of None \<Rightarrow> Inl KeyError | Some v \<Rightarrow> Inr v)"

text \<open>
  \<open>self.embeddings.shape[1]\<close>, which the log line after the three branches of \<open>_load_data\<close>
  reads, inside the \<open>try\<close> whose handler raises again. A list of rows is a 2-D array when
  it is not empty and its rows have one length. The empty list is the 1-D array
  \<open>np.array([])\<close>, whose shape has no second entry (IndexError); rows of different lengths
  do not make a 2-D array of floats (\<open>np.array\<close> raises ValueError).
\<close>

definition shape1 :: "real list list \<Rightarrow> error + nat" where
  "shape1 rows =
     (if rows = [] then Inl IndexError
      else if list_all (\<lambda>v. length v = length (hd rows)) rows then Inr (length (hd rows))
      else Inl ValueError)"

text \<open>
  \<open>_load_data\<close>, from the unpickled artifact, the rows of the metadata file and the
  concatenated click files (what \<open>_load_clicks\<close> leaves in \<open>self.user_clicks\<close>). An
  exception leaves no store.
\<close>

definition load_data :: "embeddings_data \<Rightarrow> row list \<Rightarrow> click list \<Rightarrow> error + recommender" where
  "load_data embeddings_data metadata clicks =
     (case (case embeddings_data of
              EDict d \<Rightarrow>
                (let ids = map fst d in
                 case map_err (dict_get d) ids of
                   Inl e \<Rightarrow> Inl e
                 | Inr vectors \<Rightarrow> Inr (ids, vectors))
            | ETuple ids matrix \<Rightarrow> Inr (ids, matrix)
            | EArray matrix \<Rightarrow>
                Inr (py_slice 0 (int (length matrix)) (map col_article_id metadata), matrix)
            | EOther \<Rightarrow> Inl ValueError) of
        Inl e \<Rightarrow> Inl e
      | Inr (ids, vectors) \<Rightarrow>
          (case shape1 vectors of
             Inl e \<Rightarrow> Inl e
           | Inr dimension \<Rightarrow>
               Inr \<lparr>article_ids = ids, embeddings = vectors,
                    articles_metadata = metadata, user_clicks = clicks\<rparr>))"

text \<open>
  \<open>load_data_from_blob\<close> takes the artifact as the bare matrix and always reads the
  identifiers from the first rows of the metadata.
\<close>

definition load_data_from_blob :: "real list list \<Rightarrow> row list \<Rightarrow> click list \<Rightarrow> recommender" where
  "load_data_from_blob embeddings_data metadata clicks =
     \<lparr>article_ids = py_slice 0 (int (length embeddings_data)) (map col_article_id metadata),
      embeddings = embeddings_data,
      articles_metadata = metadata, user_clicks = clicks\<rparr>"

text \<open>
  The vector of an item, as \<open>get_similar_articles\<close> reads it:
  \<open>self.embeddings[self.article_ids.index(article_id)]\<close>.
\<close>

definition vector_of :: "recommender \<Rightarrow> int \<Rightarrow> error + real list" where
  "vector_of r aid =
     (case index_of (article_ids r) aid of
        None \<Rightarrow> Inl ValueError
      | Some article_idx \<Rightarrow>
          if article_idx < length (embeddings r) then Inr (embeddings r ! article_idx)
          else Inl IndexError)"

subsection \<open>History and similarity lookup\<close>

definition get_user_history :: "recommender \<Rightarrow> int \<Rightarrow> int list" where
  "get_user_history r uid =
     (if length (user_clicks r) = 0 then []
      else let user_data = filter (\<lambda>c. user_id c = uid) (user_clicks r) in
           if length user_data = 0 then []
           else unique (map click_article_id user_data))"

definition fa_get_user_history :: "recommender \<Rightarrow> int \<Rightarrow> int list" where
  "fa_get_user_history r uid =
     (if length (user_clicks r) = 0 then []
      else let user_data = filter (\<lambda>c. user_id c = uid) (user_clicks r) in
           if length user_data = 0 then []
           else unique (map click_article_id user_data))"

text \<open>
  \<open>get_similar_articles\<close>. The handler \<open>except ValueError\<close> catches the failing
  \<open>index\<close> and a ValueError of \<open>cosine_similarity\<close>; an IndexError (a row index without
  a vector, a sorted index without an identifier) is not caught.
\<close>

definition get_similar_articles :: "recommender \<Rightarrow> int \<Rightarrow> int \<Rightarrow> error + (int \<times> real) list" where
  "get_similar_articles r aid top_k =
     (case index_of (article_ids r) aid of
        None \<Rightarrow> Inr []
      | Some article_idx \<Rightarrow>
          if \<not> article_idx < length (embeddings r) then Inl IndexError
          else
            (case cosine_similarity [embeddings r ! article_idx] (embeddings r) of
               Inl e \<Rightarrow> Inr []
             | Inr K \<Rightarrow>
                 (let similarities = K ! 0;
                      similar_indices = py_slice 1 (top_k + 1) (rev (argsort similarities))
                  in map_err (\<lambda>idx. if idx < length (article_ids r)
                                     then Inr (article_ids r ! idx, similarities ! idx)
                                     else Inl IndexError)
                       similar_indices)))"

definition fa_get_similar_articles :: "recommender \<Rightarrow> int \<Rightarrow> int \<Rightarrow> error + (int \<times> real) list" where
  "fa_get_similar_articles r aid top_k =
     (case index_of (article_ids r) aid of
        None \<Rightarrow> Inr []
      | Some article_idx \<Rightarrow>
          if \<not> article_idx < length (embeddings r) then Inl IndexError
          else
            (case cosine_similarity [embeddings r ! article_idx] (embeddings r) of
               Inl e \<Rightarrow> Inr []
             | Inr K \<Rightarrow>
                 (let similarities = K ! 0;
                      similar_indices = py_slice 1 (top_k + 1) (rev (argsort similarities))
                  in map_err (\<lambda>idx. if idx < length (article_ids r)
                                     then Inr (article_ids r ! idx, similarities ! idx)
                                     else Inl IndexError)
                       similar_indices)))"

subsection \<open>The similarity lookup in binary64 arithmetic\<close>












subsection \<open>Catalog lookup\<close>

definition default_title :: "int \<Rightarrow> string" where
  "default_title aid = ''Article '' @ str_int aid"

text \<open>
  \<open>ContentRecommender._get_article_info\<close>. \<open>article.get(col, d)\<close> gives \<open>d\<close> only when the
  column does not exist; the title alone is tested with \<open>pd.isna\<close>, and \<open>int(...)\<close> is
  applied to the word count as it is.
\<close>

definition get_article_info :: "recommender \<Rightarrow> int \<Rightarrow> error + article_info" where
  "get_article_info r aid =
     (case filter (\<lambda>a. col_article_id a = aid) (articles_metadata r) of
        [] \<Rightarrow>
          Inr \<lparr>article_id = aid, title = Val (default_title aid), category = NA,
               words_count = 0\<rparr>
      | article # _ \<Rightarrow>
          (let title0 = (case col_title article of
                           None \<Rightarrow> Val (default_title aid) | Some t \<Rightarrow> t);
               title1 = (if title0 = NaN \<or> title0 = Val [] then Val (default_title aid)
                         else title0);
               category1 = (case col_category_id article of
                              None \<Rightarrow> NA | Some c \<Rightarrow> CategoryId c)
           in case (case col_words_count article of
                      None \<Rightarrow> Inr 0 | Some w \<Rightarrow> py_int w) of
                Inl e \<Rightarrow> Inl e
              | Inr w \<Rightarrow>
                  Inr \<lparr>article_id = aid, title = title1, category = category1,
                       words_count = w\<rparr>))"

text \<open>
  \<open>get_article_info\<close> of the HTTP function: the title is always the default, and
  \<open>int(...)\<close> is applied to the category as well (default 0 for a missing column).
\<close>

definition fa_get_article_info :: "recommender \<Rightarrow> int \<Rightarrow> error + article_info" where
  "fa_get_article_info r aid =
     (case filter (\<lambda>a. col_article_id a = aid) (articles_metadata r) of
        [] \<Rightarrow>
          Inr \<lparr>article_id = aid, title = Val (default_title aid), category = NA,
               words_count = 0\<rparr>
      | article # _ \<Rightarrow>
          (case (case col_category_id article of
                   None \<Rightarrow> Inr 0 | Some c \<Rightarrow> py_int c) of
             Inl e \<Rightarrow> Inl e
           | Inr c \<Rightarrow>
               (case (case col_words_count article of
                        None \<Rightarrow> Inr 0 | Some w \<Rightarrow> py_int w) of
                  Inl e \<Rightarrow> Inl e
                | Inr w \<Rightarrow>
                    Inr \<lparr>article_id = aid, title = Val (default_title aid),
                         category = CategoryId (Val c), words_count = w\<rparr>)))"

subsection \<open>Candidate accumulation\<close>

text \<open>
  The dictionary \<open>recommendations_scores\<close>, as its items in insertion order. One step
  of the inner loop body: a new key is entered with 0 and the score is added.
\<close>

fun add_score :: "(int \<times> real) list \<Rightarrow> int \<Rightarrow> real \<Rightarrow> (int \<times> real) list" where
  "add_score [] k s = [(k, 0 + s)]"
| "add_score ((k', v) # d) k s =
     (if k' = k then (k', v + s) # d else (k', v) # add_score d k s)"

text \<open>The inner loop over the neighbours of one history item.\<close>

fun add_similar :: "int list \<Rightarrow> (int \<times> real) list \<Rightarrow> (int \<times> real) list \<Rightarrow> (int \<times> real) list" where
  "add_similar user_history d [] = d"
| "add_similar user_history d ((recommended_id, score) # rest) =
     add_similar user_history
       (if recommended_id \<notin> set user_history then add_score d recommended_id score else d)
       rest"

text \<open>The outer loop over \<open>user_history[:5]\<close>, with 20 neighbours for each item.\<close>

fun collect_scores ::
  "recommender \<Rightarrow> int list \<Rightarrow> (int \<times> real) list \<Rightarrow> int list \<Rightarrow> error + (int \<times> real) list" where
  "collect_scores r user_history d [] = Inr d"
| "collect_scores r user_history d (aid # rest) =
     (case get_similar_articles r aid 20 of
        Inl e \<Rightarrow> Inl e
      | Inr similar_articles \<Rightarrow>
          collect_scores r user_history (add_similar user_history d similar_articles) rest)"

fun fa_collect_scores ::
  "recommender \<Rightarrow> int list \<Rightarrow> (int \<times> real) list \<Rightarrow> int list \<Rightarrow> error + (int \<times> real) list" where
  "fa_collect_scores r user_history d [] = Inr d"
| "fa_collect_scores r user_history d (aid # rest) =
     (case fa_get_similar_articles r aid 20 of
        Inl e \<Rightarrow> Inl e
      | Inr similar_articles \<Rightarrow>
          fa_collect_scores r user_history (add_similar user_history d similar_articles) rest)"

subsection \<open>Fallback and recommendation\<close>

text \<open>
  \<open>Series.value_counts()\<close>: the distinct values with their number of occurrences, by
  count descending (values of equal count in order of first appearance).
\<close>

definition value_counts :: "int list \<Rightarrow> (int \<times> nat) list" where
  "value_counts xs = sorted_reverse snd (map (\<lambda>x. (x, count_list xs x)) (unique xs))"

text \<open>
  The loop of \<open>_get_popular_articles\<close> over the first catalog rows; the score of a row
  is \<open>top_n - len(results)\<close>.
\<close>

fun first_articles :: "int \<Rightarrow> entry list \<Rightarrow> row list \<Rightarrow> error + entry list" where
  "first_articles top_n results [] = Inr results"
| "first_articles top_n results (a # rest) =
     (case (case col_words_count a of None \<Rightarrow> Inr 0 | Some w \<Rightarrow> py_int w) of
        Inl e \<Rightarrow> Inl e
      | Inr w \<Rightarrow>
          first_articles top_n
            (results @
              [\<lparr>article_id = col_article_id a,
                title = (case col_title a of
                           None \<Rightarrow> Val (default_title (col_article_id a)) | Some t \<Rightarrow> t),
                category = (case col_category_id a of None \<Rightarrow> NA | Some c \<Rightarrow> CategoryId c),
                words_count = w,
                recommendation_score = real_of_int (top_n - int (length results))\<rparr>])
            rest)"

definition get_popular_articles :: "recommender \<Rightarrow> int \<Rightarrow> error + entry list" where
  "get_popular_articles r top_n =
     (if length (user_clicks r) = 0
      then first_articles top_n [] (py_slice 0 top_n (articles_metadata r))
      else
        (let article_popularity =
               py_slice 0 top_n (value_counts (map click_article_id (user_clicks r)))
         in map_err (\<lambda>(aid, count).
                       case get_article_info r aid of
                         Inl e \<Rightarrow> Inl e
                       | Inr info \<Rightarrow> Inr (with_score info (real count)))
              article_popularity))"

definition recommend_for_user :: "recommender \<Rightarrow> int \<Rightarrow> int \<Rightarrow> error + entry list" where
  "recommend_for_user r uid top_n =
     (let user_history = get_user_history r uid in
      if user_history = [] then get_popular_articles r top_n
      else
        (case collect_scores r user_history [] (take 5 user_history) of
           Inl e \<Rightarrow> Inl e
         | Inr recommendations_scores \<Rightarrow>
             (let sorted_recommendations =
                    py_slice 0 top_n (sorted_reverse snd recommendations_scores)
              in map_err (\<lambda>(aid, score).
                            case get_article_info r aid of
                              Inl e \<Rightarrow> Inl e
                            | Inr info \<Rightarrow> Inr (with_score info score))
                   sorted_recommendations)))"

text \<open>
  \<open>recommend_for_user\<close> of the HTTP function: without history it enumerates
  \<open>_article_ids[:top_n]\<close> and scores position \<open>i\<close> with \<open>top_n - i\<close>.
\<close>

definition fa_recommend_for_user :: "recommender \<Rightarrow> int \<Rightarrow> int \<Rightarrow> error + entry list" where
  "fa_recommend_for_user r uid top_n =
     (let user_history = fa_get_user_history r uid in
      if user_history = []
      then map_err (\<lambda>(i, aid).
                      case fa_get_article_info r aid of
                        Inl e \<Rightarrow> Inl e
                      | Inr info \<Rightarrow> Inr (with_score info (real_of_int (top_n - int i))))
             (enumerate 0 (py_slice 0 top_n (article_ids r)))
      else
        (case fa_collect_scores r user_history [] (take 5 user_history) of
           Inl e \<Rightarrow> Inl e
         | Inr recommendations_scores \<Rightarrow>
             (let sorted_recommendations =
                    py_slice 0 top_n (sorted_reverse snd recommendations_scores)
              in map_err (\<lambda>(aid, score).
                            case fa_get_article_info r aid of
                              Inl e \<Rightarrow> Inl e
                            | Inr info \<Rightarrow> Inr (with_score info score))
                   sorted_recommendations)))"

section \<open>Example data\<close>

text \<open>
  A store of four items, three of them with the same vector, a catalog with a missing and
  an empty title, and a click log in which user 42 read article 1 twice, user 5 read an
  article without vector, and article 4 is the most read.
\<close>

definition example_store :: recommender where
  "example_store =
     \<lparr>article_ids = [1, 2, 3, 4],
      embeddings = [[1, 0], [1, 0], [1, 0], [0, 1]],
      articles_metadata =
        [\<lparr>col_article_id = 1, col_title = Some (Val ''Budget''),
          col_category_id = Some (Val 3), col_words_count = Some (Val 120)\<rparr>,
         \<lparr>col_article_id = 2, col_title = Some NaN,
          col_category_id = Some (Val 1), col_words_count = Some (Val 80)\<rparr>,
         \<lparr>col_article_id = 3, col_title = Some (Val []),
          col_category_id = Some (Val 1), col_words_count = Some (Val 95)\<rparr>,
         \<lparr>col_article_id = 4, col_title = Some (Val ''Weather''),
          col_category_id = Some (Val 7), col_words_count = Some (Val 60)\<rparr>],
      user_clicks =
        [\<lparr>user_id = 42, click_article_id = 1\<rparr>, \<lparr>user_id = 42, click_article_id = 1\<rparr>,
         \<lparr>user_id = 5, click_article_id = 99\<rparr>, \<lparr>user_id = 7, click_article_id = 4\<rparr>,
         \<lparr>user_id = 9, click_article_id = 4\<rparr>, \<lparr>user_id = 6, click_article_id = 4\<rparr>]\<rparr>"

text \<open>
  Three items, two of them with the same vector:
  \<open>{1: [1, 0], 2: [1, 0], 3: [0, 1]}\<close>, with titles for all three.
\<close>

definition duplicate_store :: recommender where
  "duplicate_store =
     \<lparr>article_ids = [1, 2, 3],
      embeddings = [[1, 0], [1, 0], [0, 1]],
      articles_metadata =
        [\<lparr>col_article_id = 1, col_title = Some (Val ''Budget''),
          col_category_id = Some (Val 3), col_words_count = Some (Val 120)\<rparr>,
         \<lparr>col_article_id = 2, col_title = Some (Val ''Budget, again''),
          col_category_id = Some (Val 3), col_words_count = Some (Val 120)\<rparr>,
         \<lparr>col_article_id = 3, col_title = Some (Val ''Weather''),
          col_category_id = Some (Val 7), col_words_count = Some (Val 60)\<rparr>],
      user_clicks = []\<rparr>"

text \<open>A catalog row whose word count cell is empty in the CSV file.\<close>

definition sparse_store :: recommender where
  "sparse_store =
     \<lparr>article_ids = [7],
      embeddings = [[1, 0]],
      articles_metadata =
        [\<lparr>col_article_id = 7, col_title = Some (Val ''Elections''),
          col_category_id = Some (Val 2), col_words_count = Some NaN\<rparr>],
      user_clicks = []\<rparr>"

text \<open>A metadata file with the identifier column only.\<close>

definition id_only_catalog :: "int list \<Rightarrow> row list" where
  "id_only_catalog ids =
     map (\<lambda>aid. \<lparr>col_article_id = aid, col_title = None, col_category_id = None,
                  col_words_count = None\<rparr>) ids"

text \<open>
  An empty click log and a catalog of five items in the order 10, 20, 30, 40, 50, loaded
  by the HTTP function with a matrix of five rows and with a matrix of two rows.
\<close>

definition scenario_store :: recommender where
  "scenario_store =
     load_data_from_blob [[1, 0], [0, 1], [1, 0], [0, 1], [1, 0]]
       (id_only_catalog [10, 20, 30, 40, 50]) []"

definition short_store :: recommender where
  "short_store =
     load_data_from_blob [[1, 0], [0, 1]] (id_only_catalog [10, 20, 30, 40, 50]) []"


section \<open>Properties\<close>

subsection \<open>Library primitives\<close>

lemma index_of_None: "index_of xs x = None \<longleftrightarrow> x \<notin> set xs"
  by (induction xs) auto

lemma set_unique_from: "set (unique_from seen xs) = set xs - set seen"
  by (induction xs arbitrary: seen) auto

lemma distinct_unique_from: "distinct (unique_from seen xs)"
  by (induction xs arbitrary: seen) (auto simp: set_unique_from)

lemma set_unique: "set (unique xs) = set xs"
  by (simp add: unique_def set_unique_from)

lemma distinct_unique: "distinct (unique xs)"
  by (simp add: unique_def distinct_unique_from)

lemma py_slice_0: "py_slice 0 n xs = take (py_bound (length xs) n) xs"
  by (simp add: py_slice_def py_bound_def)

lemma py_bound_nonneg: "0 \<le> n \<Longrightarrow> py_bound m n = min m (nat n)"
  by (simp add: py_bound_def)

lemma length_py_slice_0: "0 \<le> n \<Longrightarrow> int (length (py_slice 0 n xs)) \<le> n"
  by (simp add: py_slice_0 py_bound_nonneg)

lemma py_slice_0_nonneg: "0 \<le> n \<Longrightarrow> py_slice 0 n xs = take (nat n) xs"
  by (simp add: py_slice_0 py_bound_nonneg min_def)

lemma length_py_slice_1: "0 \<le> k \<Longrightarrow> int (length (py_slice 1 (k + 1) xs)) \<le> k"
  by (auto simp: py_slice_def py_bound_def Let_def min_def)

lemma set_py_slice: "set (py_slice a b xs) \<subseteq> set xs"
  by (auto simp: py_slice_def Let_def dest: in_set_takeD in_set_dropD)

lemma sorted_py_slice: "sorted_wrt R (map f xs) \<Longrightarrow> sorted_wrt R (map f (py_slice a b xs))"
  by (simp add: py_slice_def Let_def take_map [symmetric] drop_map [symmetric])

lemma set_sorted_reverse: "set (sorted_reverse key xs) = set xs"
  by (simp add: sorted_reverse_def)

lemma mset_sorted_reverse: "mset (sorted_reverse key xs) = mset xs"
  by (simp add: sorted_reverse_def)

lemma distinct_map_sorted_reverse:
  "distinct (map f (sorted_reverse key xs)) = distinct (map f xs)"
proof -
  have "mset (map f (sorted_reverse key xs)) = mset (map f xs)"
    by (simp add: mset_sorted_reverse)
  then show ?thesis by (rule mset_eq_imp_distinct_iff)
qed

lemma sorted_sorted_reverse: "sorted_wrt (\<ge>) (map key (sorted_reverse key xs))"
proof -
  have "sorted (map key (sort_key key (rev xs)))" by (rule sorted_sort_key)
  then have "sorted_wrt (\<ge>) (rev (map key (sort_key key (rev xs))))"
    by (simp add: sorted_wrt_rev)
  then show ?thesis by (simp add: sorted_reverse_def rev_map)
qed

lemma sorted_argsort_rev: "sorted_wrt (\<ge>) (map (\<lambda>i. xs ! i) (rev (argsort xs)))"
proof -
  have "sorted (map (\<lambda>i. xs ! i) (argsort xs))"
    unfolding argsort_def by (rule sorted_sort_key)
  then have "sorted_wrt (\<ge>) (rev (map (\<lambda>i. xs ! i) (argsort xs)))"
    by (simp add: sorted_wrt_rev)
  then show ?thesis by (simp add: rev_map)
qed

lemma distinct_value_counts: "distinct (map fst (value_counts xs))"
  by (simp add: value_counts_def distinct_map_sorted_reverse comp_def distinct_unique)

lemma sorted_value_counts: "sorted_wrt (\<ge>) (map snd (value_counts xs))"
  unfolding value_counts_def by (rule sorted_sorted_reverse)

lemma value_counts_count: "(a, c) \<in> set (value_counts xs) \<Longrightarrow> c = count_list xs a"
  by (auto simp: value_counts_def set_sorted_reverse)

lemma real_counts_sorted:
  "sorted_wrt (\<ge>) (map snd ps) \<Longrightarrow> sorted_wrt (\<ge>) (map (real \<circ> snd) (ps :: ('a \<times> nat) list))"
  by (simp add: sorted_wrt_map)

lemma synthetic_scores_sorted:
  "sorted_wrt (\<ge>) (map (\<lambda>j. real_of_int (top_n - int j)) [k..<m])"
proof -
  have "sorted_wrt (<) [k..<m]" by simp
  then have "sorted_wrt (\<lambda>i j. real_of_int (top_n - int i) \<ge> real_of_int (top_n - int j)) [k..<m]"
    by (rule sorted_wrt_mono_rel [rotated]) simp
  then show ?thesis by (simp add: sorted_wrt_map)
qed

lemma map_err_guarded:
  "map_err (\<lambda>x. if P x then Inr (g x) else Inl e) xs = Inr ys \<Longrightarrow> ys = map g xs"
  by (induction xs arbitrary: ys) (auto split: sum.splits if_splits)

lemma map_err_returns:
  "\<forall>x\<in>set xs. \<exists>y. f x = Inr y \<Longrightarrow> \<exists>ys. map_err f xs = Inr ys"
proof (induction xs)
  case Nil
  then show ?case by simp
next
  case (Cons x xs)
  then obtain y ys where "f x = Inr y" "map_err f xs = Inr ys" by auto
  then show ?case by simp
qed

lemma map_err_pairs:
  "\<forall>p\<in>set ps. f (fst p) = Inr (snd p) \<Longrightarrow> map_err f (map fst ps) = Inr (map snd ps)"
  by (induction ps) auto

lemma pairs_of_maps:
  "map f xs = map f' ys \<Longrightarrow> map g xs = map g' ys \<Longrightarrow>
   map (\<lambda>x. (f x, g x)) xs = map (\<lambda>y. (f' y, g' y)) ys"
proof (induction xs arbitrary: ys)
  case Nil
  then show ?case by simp
next
  case (Cons x xs)
  then show ?case by (cases ys) auto
qed

lemma upt3: "[0..<3] = [0, 1, 2]"
  by (simp add: upt_rec)

lemma upt4: "[0..<4] = [0, 1, 2, 3]"
  by (simp add: upt_rec)

lemma str_int_1: "str_int 1 = ''1''"
  by (simp add: str_int_def str_nat.simps)

lemma str_int_2: "str_int 2 = ''2''"
  by (simp add: str_int_def str_nat.simps)

lemma str_int_4: "str_int 4 = ''4''"
  by (simp add: str_int_def str_nat.simps)

lemma str_int_10: "str_int 10 = ''10''"
  by (simp add: str_int_def str_nat.simps)

lemma str_int_20: "str_int 20 = ''20''"
  by (simp add: str_int_def str_nat.simps)

lemma str_int_99: "str_int 99 = ''99''"
  by (simp add: str_int_def str_nat.simps)

subsection \<open>The two implementations share history, similarity lookup and accumulation\<close>

lemma fa_get_user_history_eq: "fa_get_user_history = get_user_history"
  by (intro ext) (simp add: fa_get_user_history_def get_user_history_def)

lemma fa_get_similar_articles_eq: "fa_get_similar_articles = get_similar_articles"
  by (intro ext) (simp add: fa_get_similar_articles_def get_similar_articles_def)

lemma fa_collect_scores_eq: "fa_collect_scores r h d seeds = collect_scores r h d seeds"
  by (induction seeds arbitrary: d) (auto simp: fa_get_similar_articles_eq split: sum.splits)

subsection \<open>Loading: the three shapes of the embeddings artifact\<close>

lemma blob_article_ids:
  "article_ids (load_data_from_blob m metadata clicks) =
     take (length m) (map col_article_id metadata)"
  by (simp add: load_data_from_blob_def py_slice_0_nonneg)

lemma dict_values:
  assumes "distinct (map fst d)"
  shows "map_err (dict_get d) (map fst d) = Inr (map snd d)"
proof (rule map_err_pairs, rule ballI)
  fix p
  assume "p \<in> set d"
  then have "(fst p, snd p) \<in> set d" by simp
  with assms have "map_of d (fst p) = Some (snd p)" by (rule map_of_is_SomeI)
  then show "dict_get d (fst p) = Inr (snd p)" by (simp add: dict_get_def)
qed

lemma index_of_keys:
  "index_of (map fst ps) k =
     (case map_of ps k of None \<Rightarrow> None | Some v \<Rightarrow> index_of (map fst ps) k) \<and>
   (\<forall>i. index_of (map fst ps) k = Some i \<longrightarrow> i < length ps \<and> map_of ps k = Some (snd (ps ! i)))"
proof (induction ps)
  case Nil
  then show ?case by simp
next
  case (Cons p ps)
  then show ?case by (cases p) (auto split: option.splits)
qed

lemma vector_of_aligned:
  assumes "article_ids r = map fst ps" and "embeddings r = map snd ps"
  shows "vector_of r aid = (case map_of ps aid of None \<Rightarrow> Inl ValueError | Some v \<Rightarrow> Inr v)"
proof (cases "index_of (map fst ps) aid")
  case None
  then have "aid \<notin> set (map fst ps)" by (simp add: index_of_None)
  then have "map_of ps aid = None" by (simp add: map_of_eq_None_iff)
  with None assms show ?thesis by (simp add: vector_of_def)
next
  case (Some i)
  with index_of_keys [of ps aid] have "i < length ps" "map_of ps aid = Some (snd (ps ! i))"
    by simp_all
  with Some assms show ?thesis by (simp add: vector_of_def)
qed

lemma shape1_matrix:
  assumes "rows \<noteq> []" and "\<forall>v\<in>set rows. length v = D"
  shows "shape1 rows = Inr D"
proof -
  from assms have "hd rows \<in> set rows" by simp
  with assms(2) have "length (hd rows) = D" by blast
  with assms show ?thesis by (simp add: shape1_def list_all_iff)
qed

text \<open>
  C7: one dataset (at least one identifier, the identifiers distinct, each with a vector
  of the same dimension), given as a dictionary, as a pair of identifier list and matrix,
  and as a bare matrix whose rows follow the first catalog identifiers (each shape in an
  order of its own), loads in \<open>_load_data\<close> to three stores with the same \<open>vector_of\<close> for
  every identifier, the one the dataset gives.
\<close>

theorem load_data_shapes_agree:
  assumes a: "distinct (map fst ds)"
    and nonempty: "ds \<noteq> []"
    and dimension: "\<forall>p\<in>set ds. length (snd p) = D"
    and b: "set dsb = set ds" "distinct (map fst dsb)"
    and c: "set dsc = set ds" "distinct (map fst dsc)"
    and catalog: "take (length dsc) (map col_article_id metadata) = map fst dsc"
  shows "\<exists>ra rb rc.
           load_data (EDict ds) metadata clicks = Inr ra \<and>
           load_data (ETuple (map fst dsb) (map snd dsb)) metadata clicks = Inr rb \<and>
           load_data (EArray (map snd dsc)) metadata clicks = Inr rc \<and>
           (\<forall>aid. vector_of ra aid = vector_of rb aid \<and> vector_of rb aid = vector_of rc aid) \<and>
           (\<forall>aid v. (aid, v) \<in> set ds \<longrightarrow> vector_of ra aid = Inr v)"
proof -
  let ?ra = "\<lparr>article_ids = map fst ds, embeddings = map snd ds,
              articles_metadata = metadata, user_clicks = clicks\<rparr>"
  let ?rb = "\<lparr>article_ids = map fst dsb, embeddings = map snd dsb,
              articles_metadata = metadata, user_clicks = clicks\<rparr>"
  let ?rc = "\<lparr>article_ids = map fst dsc, embeddings = map snd dsc,
              articles_metadata = metadata, user_clicks = clicks\<rparr>"
  have matrix: "shape1 (map snd xs) = Inr D" if "set xs = set ds" for xs
  proof (rule shape1_matrix)
    from that nonempty show "map snd xs \<noteq> []" by auto
    from that dimension show "\<forall>v\<in>set (map snd xs). length v = D" by auto
  qed
  have la: "load_data (EDict ds) metadata clicks = Inr ?ra"
    by (simp add: load_data_def dict_values [OF a] matrix)
  have lb: "load_data (ETuple (map fst dsb) (map snd dsb)) metadata clicks = Inr ?rb"
    by (simp add: load_data_def matrix [OF b(1)])
  have lc: "load_data (EArray (map snd dsc)) metadata clicks = Inr ?rc"
    using catalog by (simp add: load_data_def py_slice_0_nonneg matrix [OF c(1)])
  have va: "vector_of ?ra aid = (case map_of ds aid of None \<Rightarrow> Inl ValueError | Some v \<Rightarrow> Inr v)"
    for aid by (rule vector_of_aligned) simp_all
  have vb: "vector_of ?rb aid = (case map_of dsb aid of None \<Rightarrow> Inl ValueError | Some v \<Rightarrow> Inr v)"
    for aid by (rule vector_of_aligned) simp_all
  have vc: "vector_of ?rc aid = (case map_of dsc aid of None \<Rightarrow> Inl ValueError | Some v \<Rightarrow> Inr v)"
    for aid by (rule vector_of_aligned) simp_all
  from a b have "map_of dsb = map_of ds" by (simp add: map_of_inject_set)
  moreover from a c have "map_of dsc = map_of ds" by (simp add: map_of_inject_set)
  ultimately have same: "vector_of ?ra aid = vector_of ?rb aid \<and> vector_of ?rb aid = vector_of ?rc aid"
    for aid by (simp add: va vb vc)
  have known: "vector_of ?ra aid = Inr v" if "(aid, v) \<in> set ds" for aid v
    using map_of_is_SomeI [OF a that] by (simp add: va)
  from la lb lc same known show ?thesis by blast
qed

theorem load_data_shapes_agree_witness:
  "\<exists>ra rb rc.
     load_data (EDict [(1, [1, 0]), (2, [1, 0]), (3, [0, 1])])
       (id_only_catalog [3, 1, 2, 50]) [] = Inr ra \<and>
     load_data (ETuple [2, 3, 1] [[1, 0], [0, 1], [1, 0]])
       (id_only_catalog [3, 1, 2, 50]) [] = Inr rb \<and>
     load_data (EArray [[0, 1], [1, 0], [1, 0]])
       (id_only_catalog [3, 1, 2, 50]) [] = Inr rc \<and>
     vector_of ra 3 = Inr [0, 1] \<and> vector_of rb 3 = Inr [0, 1] \<and> vector_of rc 3 = Inr [0, 1] \<and>
     vector_of ra 50 = Inl ValueError \<and> vector_of rb 50 = Inl ValueError \<and>
     vector_of rc 50 = Inl ValueError"
proof -
  let ?ds = "[(1, [1, 0]), (2, [1, 0]), (3, [0, 1])] :: (int \<times> real list) list"
  let ?dsb = "[(2, [1, 0]), (3, [0, 1]), (1, [1, 0])] :: (int \<times> real list) list"
  let ?dsc = "[(3, [0, 1]), (1, [1, 0]), (2, [1, 0])] :: (int \<times> real list) list"
  have a: "distinct (map fst ?ds)" by simp
  have nonempty: "?ds \<noteq> []" by simp
  have dimension: "\<forall>p\<in>set ?ds. length (snd p) = 2" by simp
  have b: "set ?dsb = set ?ds" "distinct (map fst ?dsb)" by auto
  have c: "set ?dsc = set ?ds" "distinct (map fst ?dsc)" by auto
  have catalog: "take (length ?dsc) (map col_article_id (id_only_catalog [3, 1, 2, 50])) =
      map fst ?dsc"
    by (simp add: id_only_catalog_def)
  from load_data_shapes_agree [OF a nonempty dimension b c catalog, of "[]"]
  obtain ra rb rc where
    l: "load_data (EDict ?ds) (id_only_catalog [3, 1, 2, 50]) [] = Inr ra"
       "load_data (ETuple (map fst ?dsb) (map snd ?dsb)) (id_only_catalog [3, 1, 2, 50]) [] = Inr rb"
       "load_data (EArray (map snd ?dsc)) (id_only_catalog [3, 1, 2, 50]) [] = Inr rc" and
    same: "\<And>aid. vector_of ra aid = vector_of rb aid \<and> vector_of rb aid = vector_of rc aid" and
    known: "\<And>aid v. (aid, v) \<in> set ?ds \<Longrightarrow> vector_of ra aid = Inr v"
    by blast
  from known [of 3 "[0, 1]"] have v3: "vector_of ra 3 = Inr [0, 1]" by simp
  from l(1) have "ra = \<lparr>article_ids = [1, 2, 3], embeddings = [[1, 0], [1, 0], [0, 1]],
      articles_metadata = id_only_catalog [3, 1, 2, 50], user_clicks = []\<rparr>"
    by (simp add: load_data_def dict_get_def shape1_def)
  then have v50: "vector_of ra 50 = Inl ValueError" by (simp add: vector_of_def)
  from l v3 v50 same [of 3] same [of 50] show ?thesis by (intro exI [of _ ra] exI [of _ rb] exI [of _ rc]) simp
qed

text \<open>
  An empty dictionary does not load: the array built from it has one dimension, and
  reading \<open>shape[1]\<close> raises.
\<close>

lemma load_data_empty_dict: "load_data (EDict []) metadata clicks = Inl IndexError"
  by (simp add: load_data_def shape1_def)

subsection \<open>Catalog lookup\<close>

lemma get_article_info_id: "get_article_info r a = Inr info \<Longrightarrow> article_id info = a"
  by (auto simp: get_article_info_def Let_def split: list.splits sum.splits option.splits)

lemma fa_get_article_info_id: "fa_get_article_info r a = Inr info \<Longrightarrow> article_id info = a"
  by (auto simp: fa_get_article_info_def Let_def split: list.splits sum.splits option.splits)

text \<open>
  An unknown identifier gets the defaults in both implementations, and the lookup of the
  class returns, with a title that is neither missing nor empty, whenever no word count
  cell is empty.
\<close>

lemma article_info_unknown:
  assumes "aid \<notin> col_article_id ` set (articles_metadata r)"
  shows "get_article_info r aid =
           Inr \<lparr>article_id = aid, title = Val (default_title aid), category = NA,
                words_count = 0\<rparr> \<and>
         fa_get_article_info r aid =
           Inr \<lparr>article_id = aid, title = Val (default_title aid), category = NA,
                words_count = 0\<rparr>"
proof -
  from assms have "filter (\<lambda>a. col_article_id a = aid) (articles_metadata r) = []"
    by (auto simp: filter_empty_conv)
  then show ?thesis by (simp add: get_article_info_def fa_get_article_info_def)
qed

lemma article_info_returns:
  assumes "\<forall>a\<in>set (articles_metadata r). col_words_count a \<noteq> Some NaN"
  shows "\<exists>info. get_article_info r aid = Inr info \<and> title info \<noteq> NaN \<and> title info \<noteq> Val []"
proof (cases "filter (\<lambda>a. col_article_id a = aid) (articles_metadata r)")
  case Nil
  then show ?thesis by (simp add: get_article_info_def default_title_def)
next
  case (Cons a rest)
  then have "a \<in> set (filter (\<lambda>a. col_article_id a = aid) (articles_metadata r))" by simp
  with assms have "col_words_count a \<noteq> Some NaN" by simp
  then obtain w where "(case col_words_count a of None \<Rightarrow> Inr 0 | Some w \<Rightarrow> py_int w) = Inr w"
    by (cases "col_words_count a"; cases "the (col_words_count a)") auto
  with Cons show ?thesis
    by (simp add: get_article_info_def Let_def default_title_def)
qed

lemma fa_article_info_returns:
  assumes "\<forall>a\<in>set (articles_metadata r).
             col_words_count a \<noteq> Some NaN \<and> col_category_id a \<noteq> Some NaN"
  shows "\<exists>info. fa_get_article_info r aid = Inr info"
proof (cases "filter (\<lambda>a. col_article_id a = aid) (articles_metadata r)")
  case Nil
  then show ?thesis by (simp add: fa_get_article_info_def)
next
  case (Cons a rest)
  then have "a \<in> set (filter (\<lambda>a. col_article_id a = aid) (articles_metadata r))" by simp
  with assms have "col_words_count a \<noteq> Some NaN" "col_category_id a \<noteq> Some NaN" by simp_all
  then obtain w c where
    "(case col_words_count a of None \<Rightarrow> Inr 0 | Some w \<Rightarrow> py_int w) = Inr w"
    "(case col_category_id a of None \<Rightarrow> Inr 0 | Some c \<Rightarrow> py_int c) = Inr c"
    by (cases "col_words_count a"; cases "the (col_words_count a)";
        cases "col_category_id a"; cases "the (col_category_id a)") auto
  with Cons show ?thesis by (simp add: fa_get_article_info_def)
qed

text \<open>
  C6 at a catalog row whose word count is empty: \<open>article.get('words_count', 0)\<close> is NaN
  there, and \<open>int(nan)\<close> raises ValueError. Both implementations.
\<close>

theorem article_info_raises_on_empty_word_count:
  "get_article_info sparse_store 7 = Inl ValueError \<and>
   fa_get_article_info sparse_store 7 = Inl ValueError"
  by (simp add: get_article_info_def fa_get_article_info_def sparse_store_def)

subsection \<open>Similarity lookup\<close>

text \<open>
  What does hold of every returned neighbour list: at most \<open>top_k\<close> entries, by descending
  similarity.
\<close>

lemma similar_articles_length_sorted:
  assumes k: "0 \<le> top_k" and res: "get_similar_articles r aid top_k = Inr res"
  shows "int (length res) \<le> top_k \<and> sorted_wrt (\<ge>) (map snd res)"
proof (cases "\<exists>article_idx K. index_of (article_ids r) aid = Some article_idx \<and>
    article_idx < length (embeddings r) \<and>
    cosine_similarity [embeddings r ! article_idx] (embeddings r) = Inr K")
  case False
  with res have "res = []"
    by (auto simp: get_similar_articles_def split: option.splits if_splits sum.splits)
  with k show ?thesis by simp
next
  case True
  then obtain article_idx K where
    "index_of (article_ids r) aid = Some article_idx"
    "article_idx < length (embeddings r)"
    "cosine_similarity [embeddings r ! article_idx] (embeddings r) = Inr K"
    by blast
  with res have "map_err (\<lambda>idx. if idx < length (article_ids r)
                   then Inr (article_ids r ! idx, (K ! 0) ! idx) else Inl IndexError)
      (py_slice 1 (top_k + 1) (rev (argsort (K ! 0)))) = Inr res"
    by (simp add: get_similar_articles_def Let_def)
  then have r: "res = map (\<lambda>idx. (article_ids r ! idx, (K ! 0) ! idx))
      (py_slice 1 (top_k + 1) (rev (argsort (K ! 0))))"
    by (rule map_err_guarded)
  have "int (length res) \<le> top_k"
    unfolding r using length_py_slice_1 [OF k] by simp
  moreover have "sorted_wrt (\<ge>) (map snd res)"
    unfolding r using sorted_py_slice [OF sorted_argsort_rev] by (simp add: comp_def)
  ultimately show ?thesis by simp
qed

lemma example_similar:
  "get_similar_articles example_store 1 20 = Inr [(2, 1), (1, 1), (4, 0)]"
  by (simp add: get_similar_articles_def example_store_def cosine_similarity_def dot_def
      l2_normalize_def argsort_def upt4 py_slice_def py_bound_def)

lemma example_similar_4: "get_similar_articles example_store 4 20 = Inr [(3, 0), (2, 0), (1, 0)]"
  by (simp add: get_similar_articles_def example_store_def cosine_similarity_def dot_def
      l2_normalize_def argsort_def upt4 py_slice_def py_bound_def)

text \<open>
  C8: for an identifier that is not in the embedding store, \<open>get_similar_articles\<close>
  returns the empty list for every \<open>top_k\<close> and raises nothing, and the loop over the
  history goes on with the remaining items as if the unknown item were not there.
\<close>

theorem unknown_article_soft_failure:
  assumes "aid \<notin> set (article_ids r)"
  shows "get_similar_articles r aid top_k = Inr [] \<and>
         fa_get_similar_articles r aid top_k = Inr [] \<and>
         collect_scores r h d (aid # rest) = collect_scores r h d rest \<and>
         fa_collect_scores r h d (aid # rest) = fa_collect_scores r h d rest"
proof -
  from assms have "index_of (article_ids r) aid = None" by (simp add: index_of_None)
  then have "get_similar_articles r aid k = Inr []" for k
    by (simp add: get_similar_articles_def)
  then show ?thesis by (simp add: fa_get_similar_articles_eq fa_collect_scores_eq)
qed

theorem unknown_article_soft_failure_witness:
  "99 \<notin> set (article_ids example_store) \<and>
   get_similar_articles example_store 99 20 = Inr [] \<and>
   fa_get_similar_articles example_store 99 20 = Inr [] \<and>
   collect_scores example_store [99, 4] [] [99, 4] = Inr [(3, 0), (2, 0), (1, 0)] \<and>
   fa_collect_scores example_store [99, 4] [] [99, 4] = Inr [(3, 0), (2, 0), (1, 0)]"
proof -
  have unknown: "99 \<notin> set (article_ids example_store)"
    by (simp add: example_store_def)
  from unknown_article_soft_failure
    [OF unknown, where top_k = 20 and h = "[99, 4]" and d = "[]" and rest = "[4]"]
  show ?thesis using unknown by (simp add: example_similar_4 fa_collect_scores_eq)
qed

text \<open>
  C1 at the store \<open>{1: [1, 0], 2: [1, 0], 3: [0, 1]}\<close>: the similarities of item 1 are
  \<open>[1, 1, 0]\<close>, the reversed \<open>argsort\<close> is \<open>[1, 0, 2]\<close>, and dropping its first position
  drops item 2 and keeps the query item 1 among its own neighbours. Both implementations.
  Item 2 has the same similarities and therefore the same list: whichever of the two
  equal maxima a sort puts first, one of the two items is returned for itself.
\<close>

theorem similar_articles_contain_query:
  "get_similar_articles duplicate_store 1 2 = Inr [(1, 1), (3, 0)] \<and>
   fa_get_similar_articles duplicate_store 1 2 = Inr [(1, 1), (3, 0)] \<and>
   get_similar_articles duplicate_store 2 2 = Inr [(1, 1), (3, 0)]"
  by (simp add: fa_get_similar_articles_eq)
    (simp add: get_similar_articles_def duplicate_store_def cosine_similarity_def dot_def
      l2_normalize_def argsort_def upt3 py_slice_def py_bound_def)

subsection \<open>The range of the cosine\<close>




























subsection \<open>Candidate accumulation\<close>

lemma keys_add_score: "fst ` set (add_score d k s) = insert k (fst ` set d)"
proof (induction d)
  case Nil
  then show ?case by simp
next
  case (Cons p d)
  obtain k' v where p: "p = (k', v)" by (cases p)
  show ?case
  proof (cases "k' = k")
    case True
    then show ?thesis by (simp add: p)
  next
    case False
    then show ?thesis using Cons by (simp add: p insert_commute)
  qed
qed

lemma distinct_add_score:
  "distinct (map fst d) \<Longrightarrow> distinct (map fst (add_score d k s))"
proof (induction d)
  case Nil
  then show ?case by simp
next
  case (Cons p d)
  obtain k' v where p: "p = (k', v)" by (cases p)
  from Cons show ?case
    using keys_add_score [of d k s] by (auto simp: p)
qed

lemma keys_add_similar:
  "fst ` set (add_similar h d sim) \<subseteq> fst ` set d \<union> (fst ` set sim - set h)"
proof (induction sim arbitrary: d)
  case Nil
  then show ?case by simp
next
  case (Cons p sim)
  obtain k s where p: "p = (k, s)" by (cases p)
  show ?case
    using Cons [of "if k \<notin> set h then add_score d k s else d"]
    by (auto simp: p keys_add_score split: if_splits)
qed

lemma distinct_add_similar:
  "distinct (map fst d) \<Longrightarrow> distinct (map fst (add_similar h d sim))"
proof (induction sim arbitrary: d)
  case Nil
  then show ?case by simp
next
  case (Cons p sim)
  obtain k s where p: "p = (k, s)" by (cases p)
  from Cons show ?case by (simp add: p distinct_add_score)
qed

lemma collect_scores_keys:
  "collect_scores r h d seeds = Inr d' \<Longrightarrow> fst ` set d \<inter> set h = {} \<Longrightarrow>
   fst ` set d' \<inter> set h = {}"
proof (induction seeds arbitrary: d)
  case Nil
  then show ?case by simp
next
  case (Cons a seeds)
  from Cons.prems(1) obtain sim where
    sim: "get_similar_articles r a 20 = Inr sim" and
    rest: "collect_scores r h (add_similar h d sim) seeds = Inr d'"
    by (auto split: sum.splits)
  have "fst ` set (add_similar h d sim) \<inter> set h = {}"
    using keys_add_similar [of h d sim] Cons.prems(2) by blast
  with rest show ?case by (rule Cons.IH)
qed

lemma collect_scores_distinct:
  "collect_scores r h d seeds = Inr d' \<Longrightarrow> distinct (map fst d) \<Longrightarrow> distinct (map fst d')"
proof (induction seeds arbitrary: d)
  case Nil
  then show ?case by simp
next
  case (Cons a seeds)
  from Cons.prems(1) obtain sim where
    rest: "collect_scores r h (add_similar h d sim) seeds = Inr d'"
    by (auto split: sum.splits)
  from rest distinct_add_similar [OF Cons.prems(2)] show ?case by (rule Cons.IH)
qed

lemma add_similar_all_read:
  "fst ` set sim \<subseteq> set h \<Longrightarrow> add_similar h d sim = d"
  by (induction sim arbitrary: d) auto

lemma collect_scores_all_read:
  assumes "\<forall>seed\<in>set seeds. \<exists>sim. get_similar_articles r seed 20 = Inr sim \<and> fst ` set sim \<subseteq> set h"
  shows "collect_scores r h d seeds = Inr d"
  using assms
proof (induction seeds)
  case Nil
  then show ?case by simp
next
  case (Cons a seeds)
  then obtain sim where "get_similar_articles r a 20 = Inr sim" "fst ` set sim \<subseteq> set h"
    by auto
  with Cons show ?case by (simp add: add_similar_all_read)
qed

subsection \<open>The paths of \<open>recommend_for_user\<close>\<close>

text \<open>
  What a returned list is made of, path by path: the identifiers and the scores of the
  result are those of the sliced candidates, of the sliced click counts, or of the first
  catalog rows (class) or store identifiers (HTTP function).
\<close>

lemma scored_ids:
  assumes "map_err (\<lambda>(aid, score). case lookup aid of Inl e \<Rightarrow> Inl e
                                   | Inr info \<Rightarrow> Inr (with_score info (conv score))) ps = Inr res"
    and "\<And>a info. lookup a = Inr info \<Longrightarrow> article_id info = a"
  shows "map article_id res = map fst ps \<and> map recommendation_score res = map (conv \<circ> snd) ps"
  using assms(1)
proof (induction ps arbitrary: res)
  case Nil
  then show ?case by simp
next
  case (Cons p ps)
  obtain a s where p: "p = (a, s)" by (cases p)
  from Cons.prems obtain info rest where
    i: "lookup a = Inr info" and r: "map_err (\<lambda>(aid, score). case lookup aid of Inl e \<Rightarrow> Inl e
                                   | Inr info \<Rightarrow> Inr (with_score info (conv score))) ps = Inr rest"
    and res: "res = with_score info (conv s) # rest"
    by (auto simp: p split: sum.splits)
  from Cons.IH [OF r] assms(2) [OF i] show ?case
    by (simp add: res p with_score_def)
qed

lemma similarity_path:
  assumes h: "get_user_history r uid \<noteq> []"
    and res: "recommend_for_user r uid top_n = Inr res"
  obtains d where
    "collect_scores r (get_user_history r uid) [] (take 5 (get_user_history r uid)) = Inr d"
    "map article_id res = map fst (py_slice 0 top_n (sorted_reverse snd d))"
    "map recommendation_score res = map snd (py_slice 0 top_n (sorted_reverse snd d))"
proof -
  let ?h = "get_user_history r uid"
  from h res obtain d where
    d: "collect_scores r ?h [] (take 5 ?h) = Inr d" and
    m: "map_err (\<lambda>(aid, score). case get_article_info r aid of Inl e \<Rightarrow> Inl e
                  | Inr info \<Rightarrow> Inr (with_score info ((\<lambda>s. s) score)))
          (py_slice 0 top_n (sorted_reverse snd d)) = Inr res"
    by (auto simp: recommend_for_user_def Let_def split: sum.splits)
  from scored_ids [where conv = "\<lambda>s. s", OF m get_article_info_id]
  have "map article_id res = map fst (py_slice 0 top_n (sorted_reverse snd d))"
    and "map recommendation_score res = map snd (py_slice 0 top_n (sorted_reverse snd d))"
    by (simp_all add: comp_def)
  with d show ?thesis by (rule that)
qed

lemma fa_similarity_path:
  assumes h: "get_user_history r uid \<noteq> []"
    and res: "fa_recommend_for_user r uid top_n = Inr res"
  obtains d where
    "collect_scores r (get_user_history r uid) [] (take 5 (get_user_history r uid)) = Inr d"
    "map article_id res = map fst (py_slice 0 top_n (sorted_reverse snd d))"
    "map recommendation_score res = map snd (py_slice 0 top_n (sorted_reverse snd d))"
proof -
  let ?h = "get_user_history r uid"
  from h res obtain d where
    d: "collect_scores r ?h [] (take 5 ?h) = Inr d" and
    m: "map_err (\<lambda>(aid, score). case fa_get_article_info r aid of Inl e \<Rightarrow> Inl e
                  | Inr info \<Rightarrow> Inr (with_score info ((\<lambda>s. s) score)))
          (py_slice 0 top_n (sorted_reverse snd d)) = Inr res"
    by (auto simp: fa_recommend_for_user_def fa_get_user_history_eq fa_collect_scores_eq Let_def
        split: sum.splits)
  from scored_ids [where conv = "\<lambda>s. s", OF m fa_get_article_info_id]
  have "map article_id res = map fst (py_slice 0 top_n (sorted_reverse snd d))"
    and "map recommendation_score res = map snd (py_slice 0 top_n (sorted_reverse snd d))"
    by (simp_all add: comp_def)
  with d show ?thesis by (rule that)
qed

lemma popularity_path:
  assumes h: "get_user_history r uid = []" and log: "user_clicks r \<noteq> []"
    and res: "recommend_for_user r uid top_n = Inr res"
  shows "map article_id res =
           map fst (py_slice 0 top_n (value_counts (map click_article_id (user_clicks r))))"
    and "map recommendation_score res =
           map (real \<circ> snd) (py_slice 0 top_n (value_counts (map click_article_id (user_clicks r))))"
proof -
  from h log res have
    m: "map_err (\<lambda>(aid, count). case get_article_info r aid of Inl e \<Rightarrow> Inl e
                  | Inr info \<Rightarrow> Inr (with_score info (real count)))
          (py_slice 0 top_n (value_counts (map click_article_id (user_clicks r)))) = Inr res"
    by (simp add: recommend_for_user_def get_popular_articles_def)
  from scored_ids [where conv = real, OF m get_article_info_id]
  show "map article_id res =
           map fst (py_slice 0 top_n (value_counts (map click_article_id (user_clicks r))))"
    and "map recommendation_score res =
           map (real \<circ> snd) (py_slice 0 top_n (value_counts (map click_article_id (user_clicks r))))"
    by simp_all
qed

lemma first_articles_Inr:
  "first_articles top_n acc rows = Inr res \<Longrightarrow>
   map article_id res = map article_id acc @ map col_article_id rows \<and>
   map recommendation_score res =
     map recommendation_score acc @
     map (\<lambda>j. real_of_int (top_n - int j)) [length acc..<length acc + length rows]"
proof (induction rows arbitrary: acc)
  case Nil
  then show ?case by simp
next
  case (Cons a rows)
  from Cons.prems show ?case
    by (auto split: sum.splits dest!: Cons.IH simp: upt_conv_Cons simp del: upt_Suc)
qed

lemma first_articles_returns:
  "\<forall>a\<in>set rows. col_words_count a \<noteq> Some NaN \<Longrightarrow> \<exists>res. first_articles top_n acc rows = Inr res"
proof (induction rows arbitrary: acc)
  case Nil
  then show ?case by simp
next
  case (Cons a rows)
  from Cons.prems have "col_words_count a \<noteq> Some NaN" by simp
  then obtain w where "(case col_words_count a of None \<Rightarrow> Inr 0 | Some w \<Rightarrow> py_int w) = Inr w"
    by (cases "col_words_count a"; cases "the (col_words_count a)") auto
  moreover from Cons.prems have "\<forall>a\<in>set rows. col_words_count a \<noteq> Some NaN" by simp
  ultimately show ?case using Cons.IH by simp
qed

lemma catalog_path:
  assumes log: "user_clicks r = []"
    and res: "recommend_for_user r uid top_n = Inr res"
  shows "map article_id res = map col_article_id (py_slice 0 top_n (articles_metadata r))"
    and "map recommendation_score res = map (\<lambda>j. real_of_int (top_n - int j)) [0..<length res]"
proof -
  from log have "get_user_history r uid = []" by (simp add: get_user_history_def)
  with log res have "first_articles top_n [] (py_slice 0 top_n (articles_metadata r)) = Inr res"
    by (simp add: recommend_for_user_def get_popular_articles_def)
  from first_articles_Inr [OF this]
  have ids: "map article_id res = map col_article_id (py_slice 0 top_n (articles_metadata r))"
    and sc: "map recommendation_score res =
      map (\<lambda>j. real_of_int (top_n - int j)) [0..<length (py_slice 0 top_n (articles_metadata r))]"
    by simp_all
  from ids have "length res = length (py_slice 0 top_n (articles_metadata r))"
    by (metis length_map)
  with ids sc show "map article_id res = map col_article_id (py_slice 0 top_n (articles_metadata r))"
    and "map recommendation_score res = map (\<lambda>j. real_of_int (top_n - int j)) [0..<length res]"
    by simp_all
qed

lemma fa_fallback_Inr:
  "map_err (\<lambda>(i, aid). case fa_get_article_info r aid of Inl e \<Rightarrow> Inl e
              | Inr info \<Rightarrow> Inr (with_score info (real_of_int (top_n - int i))))
     (enumerate k xs) = Inr res \<Longrightarrow>
   map article_id res = xs \<and>
   map recommendation_score res = map (\<lambda>j. real_of_int (top_n - int j)) [k..<k + length xs]"
proof (induction xs arbitrary: k res)
  case Nil
  then show ?case by simp
next
  case (Cons a xs)
  from Cons.prems obtain info rest where
    i: "fa_get_article_info r a = Inr info" and
    r: "map_err (\<lambda>(i, aid). case fa_get_article_info r aid of Inl e \<Rightarrow> Inl e
              | Inr info \<Rightarrow> Inr (with_score info (real_of_int (top_n - int i))))
          (enumerate (Suc k) xs) = Inr rest" and
    res: "res = with_score info (real_of_int (top_n - int k)) # rest"
    by (auto split: sum.splits)
  from Cons.IH [OF r] fa_get_article_info_id [OF i] show ?case
    by (simp add: res with_score_def upt_conv_Cons del: upt_Suc)
qed

lemma fa_fallback_path:
  assumes h: "get_user_history r uid = []"
    and res: "fa_recommend_for_user r uid top_n = Inr res"
  shows "map article_id res = py_slice 0 top_n (article_ids r)"
    and "map recommendation_score res = map (\<lambda>j. real_of_int (top_n - int j)) [0..<length res]"
proof -
  from h res have
    "map_err (\<lambda>(i, aid). case fa_get_article_info r aid of Inl e \<Rightarrow> Inl e
              | Inr info \<Rightarrow> Inr (with_score info (real_of_int (top_n - int i))))
     (enumerate 0 (py_slice 0 top_n (article_ids r))) = Inr res"
    by (simp add: fa_recommend_for_user_def fa_get_user_history_eq)
  from fa_fallback_Inr [OF this]
  have ids: "map article_id res = py_slice 0 top_n (article_ids r)"
    and sc: "map recommendation_score res =
      map (\<lambda>j. real_of_int (top_n - int j)) [0..<length (py_slice 0 top_n (article_ids r))]"
    by simp_all
  from ids have "length res = length (py_slice 0 top_n (article_ids r))"
    by (metis length_map)
  with ids sc show "map article_id res = py_slice 0 top_n (article_ids r)"
    and "map recommendation_score res = map (\<lambda>j. real_of_int (top_n - int j)) [0..<length res]"
    by simp_all
qed

subsection \<open>When \<open>recommend_for_user\<close> returns\<close>

text \<open>
  The calls raise nothing when the store has one identifier for each matrix row (no
  IndexError in the similarity lookup) and the catalog has no empty word count cell (for
  the HTTP function: nor an empty category cell).
\<close>

lemma index_of_less: "index_of xs x = Some i \<Longrightarrow> i < length xs"
  by (induction xs arbitrary: i) (auto split: if_splits)

lemma similar_articles_returns:
  assumes "length (embeddings r) \<le> length (article_ids r)"
    and "length (article_ids r) \<le> length (embeddings r)"
  shows "\<exists>res. get_similar_articles r aid top_k = Inr res"
proof (cases "index_of (article_ids r) aid")
  case None
  then show ?thesis by (simp add: get_similar_articles_def)
next
  case (Some article_idx)
  then have "article_idx < length (article_ids r)" by (rule index_of_less)
  with assms have idx: "article_idx < length (embeddings r)" by simp
  show ?thesis
  proof (cases "cosine_similarity [embeddings r ! article_idx] (embeddings r)")
    case (Inl e)
    with Some idx show ?thesis by (simp add: get_similar_articles_def)
  next
    case (Inr K)
    then have sims: "length (K ! 0) = length (embeddings r)"
      by (auto simp: cosine_similarity_def split: if_splits)
    have "\<exists>y. (if idx < length (article_ids r)
                then Inr (article_ids r ! idx, (K ! 0) ! idx) else Inl IndexError) = Inr y"
      if "idx \<in> set (py_slice 1 (top_k + 1) (rev (argsort (K ! 0))))" for idx
    proof -
      from that set_py_slice [of 1 "top_k + 1" "rev (argsort (K ! 0))"]
      have "idx \<in> set (rev (argsort (K ! 0)))" by (rule subsetD [rotated])
      then have "idx < length (embeddings r)" by (simp add: argsort_def sims)
      with assms show ?thesis by simp
    qed
    then have "\<exists>res. map_err (\<lambda>idx. if idx < length (article_ids r)
                then Inr (article_ids r ! idx, (K ! 0) ! idx) else Inl IndexError)
        (py_slice 1 (top_k + 1) (rev (argsort (K ! 0)))) = Inr res"
      by (intro map_err_returns) blast
    with Some idx Inr show ?thesis by (simp add: get_similar_articles_def Let_def)
  qed
qed

lemma collect_scores_returns:
  assumes "length (embeddings r) \<le> length (article_ids r)"
    and "length (article_ids r) \<le> length (embeddings r)"
  shows "\<exists>d'. collect_scores r h d seeds = Inr d'"
proof (induction seeds arbitrary: d)
  case Nil
  then show ?case by simp
next
  case (Cons a seeds)
  from similar_articles_returns [OF assms, of a 20] obtain sim where
    "get_similar_articles r a 20 = Inr sim" by blast
  with Cons show ?case by simp
qed

lemma recommend_for_user_returns:
  assumes aligned: "length (article_ids r) = length (embeddings r)"
    and clean: "\<forall>a\<in>set (articles_metadata r). col_words_count a \<noteq> Some NaN"
  shows "\<exists>res. recommend_for_user r uid top_n = Inr res"
proof -
  have lookup: "\<exists>y. (case get_article_info r aid of Inl e \<Rightarrow> Inl e
             | Inr info \<Rightarrow> Inr (with_score info s)) = Inr y" for aid s
    using article_info_returns [OF clean, of aid] by auto
  show ?thesis
  proof (cases "get_user_history r uid = []")
    case False
    from aligned obtain d where
      d: "collect_scores r (get_user_history r uid) [] (take 5 (get_user_history r uid)) = Inr d"
      using collect_scores_returns [of r] by fastforce
    have "\<exists>res. map_err (\<lambda>(aid, score). case get_article_info r aid of Inl e \<Rightarrow> Inl e
             | Inr info \<Rightarrow> Inr (with_score info score))
        (py_slice 0 top_n (sorted_reverse snd d)) = Inr res"
      using lookup by (intro map_err_returns) auto
    with False d show ?thesis by (simp add: recommend_for_user_def)
  next
    case True
    show ?thesis
    proof (cases "user_clicks r = []")
      case True
      from clean set_py_slice [of 0 top_n "articles_metadata r"]
      have "\<forall>a\<in>set (py_slice 0 top_n (articles_metadata r)). col_words_count a \<noteq> Some NaN"
        by blast
      from first_articles_returns [OF this, of top_n "[]"] True \<open>get_user_history r uid = []\<close>
      show ?thesis by (simp add: recommend_for_user_def get_popular_articles_def)
    next
      case False
      have "\<exists>res. map_err (\<lambda>(aid, count). case get_article_info r aid of Inl e \<Rightarrow> Inl e
               | Inr info \<Rightarrow> Inr (with_score info (real count)))
          (py_slice 0 top_n (value_counts (map click_article_id (user_clicks r)))) = Inr res"
        using lookup by (intro map_err_returns) auto
      with True False show ?thesis
        by (simp add: recommend_for_user_def get_popular_articles_def)
    qed
  qed
qed

lemma fa_recommend_for_user_returns:
  assumes aligned: "length (article_ids r) = length (embeddings r)"
    and clean: "\<forall>a\<in>set (articles_metadata r).
                  col_words_count a \<noteq> Some NaN \<and> col_category_id a \<noteq> Some NaN"
  shows "\<exists>res. fa_recommend_for_user r uid top_n = Inr res"
proof -
  have lookup: "\<exists>y. (case fa_get_article_info r aid of Inl e \<Rightarrow> Inl e
             | Inr info \<Rightarrow> Inr (with_score info s)) = Inr y" for aid s
    using fa_article_info_returns [OF clean, of aid] by auto
  show ?thesis
  proof (cases "get_user_history r uid = []")
    case False
    from aligned obtain d where
      d: "collect_scores r (get_user_history r uid) [] (take 5 (get_user_history r uid)) = Inr d"
      using collect_scores_returns [of r] by fastforce
    have "\<exists>res. map_err (\<lambda>(aid, score). case fa_get_article_info r aid of Inl e \<Rightarrow> Inl e
             | Inr info \<Rightarrow> Inr (with_score info score))
        (py_slice 0 top_n (sorted_reverse snd d)) = Inr res"
      using lookup by (intro map_err_returns) auto
    with False d show ?thesis
      by (simp add: fa_recommend_for_user_def fa_get_user_history_eq fa_collect_scores_eq)
  next
    case True
    have "\<exists>res. map_err (\<lambda>(i, aid). case fa_get_article_info r aid of Inl e \<Rightarrow> Inl e
             | Inr info \<Rightarrow> Inr (with_score info (real_of_int (top_n - int i))))
        (enumerate 0 (py_slice 0 top_n (article_ids r))) = Inr res"
      using lookup by (intro map_err_returns) auto
    with True show ?thesis
      by (simp add: fa_recommend_for_user_def fa_get_user_history_eq)
  qed
qed

subsection \<open>Evaluations at the example stores\<close>

lemma example_history: "get_user_history example_store 42 = [1]"
  by (simp add: get_user_history_def example_store_def unique_def)

lemma example_history_5: "get_user_history example_store 5 = [99]"
  by (simp add: get_user_history_def example_store_def unique_def)

lemma example_history_8: "get_user_history example_store 8 = []"
  by (simp add: get_user_history_def example_store_def)

lemma example_recommend:
  "recommend_for_user example_store 42 5 =
     Inr [\<lparr>article_id = 2, title = Val ''Article 2'', category = CategoryId (Val 1),
           words_count = 80, recommendation_score = 1\<rparr>,
          \<lparr>article_id = 4, title = Val ''Weather'', category = CategoryId (Val 7),
           words_count = 60, recommendation_score = 0\<rparr>]"
  apply (simp add: recommend_for_user_def example_history example_similar)
  apply (simp add: sorted_reverse_def py_slice_def py_bound_def)
  apply (simp add: get_article_info_def example_store_def with_score_def default_title_def
      str_int_2)
  done

lemma example_fa_recommend:
  "fa_recommend_for_user example_store 42 5 =
     Inr [\<lparr>article_id = 2, title = Val ''Article 2'', category = CategoryId (Val 1),
           words_count = 80, recommendation_score = 1\<rparr>,
          \<lparr>article_id = 4, title = Val ''Article 4'', category = CategoryId (Val 7),
           words_count = 60, recommendation_score = 0\<rparr>]"
  apply (simp add: fa_recommend_for_user_def fa_get_user_history_eq fa_collect_scores_eq
      example_history example_similar)
  apply (simp add: sorted_reverse_def py_slice_def py_bound_def)
  apply (simp add: fa_get_article_info_def example_store_def with_score_def default_title_def
      str_int_2 str_int_4)
  done

lemma example_value_counts:
  "value_counts (map click_article_id (user_clicks example_store)) = [(4, 3), (1, 2), (99, 1)]"
  by (simp add: value_counts_def example_store_def unique_def sorted_reverse_def)

lemma example_popular:
  "get_popular_articles example_store 2 =
     Inr [\<lparr>article_id = 4, title = Val ''Weather'', category = CategoryId (Val 7),
           words_count = 60, recommendation_score = 3\<rparr>,
          \<lparr>article_id = 1, title = Val ''Budget'', category = CategoryId (Val 3),
           words_count = 120, recommendation_score = 2\<rparr>]"
  apply (simp add: get_popular_articles_def example_value_counts)
  apply (simp add: py_slice_def py_bound_def)
  apply (simp add: example_store_def get_article_info_def with_score_def)
  done

lemma scenario_catalog_ids:
  "map col_article_id (articles_metadata scenario_store) = [10, 20, 30, 40, 50]"
  by (simp add: scenario_store_def load_data_from_blob_def id_only_catalog_def)

lemma scenario_article_ids: "article_ids scenario_store = [10, 20, 30, 40, 50]"
  by (simp add: scenario_store_def blob_article_ids id_only_catalog_def)

subsection \<open>History items are never recommended\<close>

lemma candidates_not_in_history:
  assumes d: "collect_scores r h [] seeds = Inr d"
    and ids: "map article_id res = map fst (py_slice 0 top_n (sorted_reverse snd d))"
    and e: "e \<in> set res"
  shows "article_id e \<notin> set h"
proof -
  from e have "article_id e \<in> set (map article_id res)" by simp
  also have "\<dots> \<subseteq> fst ` set (sorted_reverse snd d)"
    unfolding ids py_slice_0 using set_take_subset by fastforce
  also have "\<dots> = fst ` set d" by (simp add: set_sorted_reverse)
  finally have "article_id e \<in> fst ` set d" .
  moreover from collect_scores_keys [OF d] have "fst ` set d \<inter> set h = {}" by simp
  ultimately show ?thesis by blast
qed

text \<open>
  C2: for a user with a non-empty history, no entry returned by \<open>recommend_for_user\<close>
  carries an identifier of the user's full history, whichever of the at most five seed
  items surfaced it. Both implementations.
\<close>

theorem recommendations_exclude_history:
  assumes "get_user_history r uid \<noteq> []"
  shows "(\<forall>res. recommend_for_user r uid top_n = Inr res \<longrightarrow>
            (\<forall>e\<in>set res. article_id e \<notin> set (get_user_history r uid))) \<and>
         (\<forall>res. fa_recommend_for_user r uid top_n = Inr res \<longrightarrow>
            (\<forall>e\<in>set res. article_id e \<notin> set (fa_get_user_history r uid)))"
proof (intro conjI allI impI ballI)
  fix res e
  assume res: "recommend_for_user r uid top_n = Inr res" and e: "e \<in> set res"
  from assms res obtain d where
    "collect_scores r (get_user_history r uid) [] (take 5 (get_user_history r uid)) = Inr d"
    "map article_id res = map fst (py_slice 0 top_n (sorted_reverse snd d))"
    by (rule similarity_path)
  then show "article_id e \<notin> set (get_user_history r uid)"
    using e by (rule candidates_not_in_history)
next
  fix res e
  assume res: "fa_recommend_for_user r uid top_n = Inr res" and e: "e \<in> set res"
  from assms res obtain d where
    "collect_scores r (get_user_history r uid) [] (take 5 (get_user_history r uid)) = Inr d"
    "map article_id res = map fst (py_slice 0 top_n (sorted_reverse snd d))"
    by (rule fa_similarity_path)
  then show "article_id e \<notin> set (fa_get_user_history r uid)"
    unfolding fa_get_user_history_eq using e by (rule candidates_not_in_history)
qed

theorem recommendations_exclude_history_witness:
  "get_user_history example_store 42 \<noteq> [] \<and>
   (\<exists>res. recommend_for_user example_store 42 5 = Inr res \<and> res \<noteq> [] \<and>
      (\<forall>e\<in>set res. article_id e \<notin> set (get_user_history example_store 42))) \<and>
   (\<exists>res. fa_recommend_for_user example_store 42 5 = Inr res \<and> res \<noteq> [] \<and>
      (\<forall>e\<in>set res. article_id e \<notin> set (fa_get_user_history example_store 42)))"
  using recommendations_exclude_history [of example_store 42 5]
  by (simp add: example_history example_recommend example_fa_recommend)

subsection \<open>Shape of the result list\<close>

lemma shape_from_slice:
  assumes n: "0 \<le> n"
    and ids: "map article_id res = map fst (py_slice 0 n ps)"
    and scores: "map recommendation_score res = map f (py_slice 0 n ps)"
    and d: "distinct (map fst ps)"
    and s: "sorted_wrt (\<ge>) (map f ps)"
  shows "int (length res) \<le> n \<and> distinct (map article_id res) \<and>
         sorted_wrt (\<ge>) (map recommendation_score res)"
proof -
  have "length res = length (map article_id res)" by simp
  also have "\<dots> = length (py_slice 0 n ps)" unfolding ids by simp
  finally have "int (length res) \<le> n" using length_py_slice_0 [OF n, of ps] by simp
  moreover have "distinct (map article_id res)"
    unfolding ids py_slice_0 take_map [symmetric] using d by (rule distinct_take)
  moreover have "sorted_wrt (\<ge>) (map recommendation_score res)"
    unfolding scores py_slice_0 take_map [symmetric] using s by (rule sorted_wrt_take)
  ultimately show ?thesis by simp
qed

lemma shape_synthetic:
  assumes n: "0 \<le> n"
    and ids: "map article_id res = py_slice 0 n xs"
    and scores: "map recommendation_score res = map (\<lambda>j. real_of_int (n - int j)) [0..<length res]"
    and d: "distinct xs"
  shows "int (length res) \<le> n \<and> distinct (map article_id res) \<and>
         sorted_wrt (\<ge>) (map recommendation_score res)"
proof -
  have "length res = length (map article_id res)" by simp
  also have "\<dots> = length (py_slice 0 n xs)" unfolding ids by simp
  finally have "int (length res) \<le> n" using length_py_slice_0 [OF n, of xs] by simp
  moreover have "distinct (map article_id res)"
    unfolding ids py_slice_0 using d by (rule distinct_take)
  moreover have "sorted_wrt (\<ge>) (map recommendation_score res)"
    unfolding scores by (rule synthetic_scores_sorted)
  ultimately show ?thesis by simp
qed

lemma similarity_shape:
  assumes n: "0 \<le> top_n"
    and d: "collect_scores r h [] seeds = Inr d"
    and ids: "map article_id res = map fst (py_slice 0 top_n (sorted_reverse snd d))"
    and scores: "map recommendation_score res = map snd (py_slice 0 top_n (sorted_reverse snd d))"
  shows "int (length res) \<le> top_n \<and> distinct (map article_id res) \<and>
         sorted_wrt (\<ge>) (map recommendation_score res)"
proof -
  from collect_scores_distinct [OF d] have "distinct (map fst (sorted_reverse snd d))"
    by (simp add: distinct_map_sorted_reverse)
  with n ids scores show ?thesis
    by (rule shape_from_slice) (rule sorted_sorted_reverse)
qed

text \<open>
  C3, amended: for \<open>top_n \<ge> 0\<close> (and identifiers that are unique in the catalog and in
  the store, which matters on the fallback paths only), every list returned by
  \<open>recommend_for_user\<close> has at most \<open>top_n\<close> entries, no identifier twice, and scores in
  descending order. Both implementations, every path.
\<close>

theorem result_list_shape:
  assumes n: "0 \<le> top_n"
    and catalog: "distinct (map col_article_id (articles_metadata r))"
    and store: "distinct (article_ids r)"
  shows "(\<forall>res. recommend_for_user r uid top_n = Inr res \<longrightarrow>
            int (length res) \<le> top_n \<and> distinct (map article_id res) \<and>
            sorted_wrt (\<ge>) (map recommendation_score res)) \<and>
         (\<forall>res. fa_recommend_for_user r uid top_n = Inr res \<longrightarrow>
            int (length res) \<le> top_n \<and> distinct (map article_id res) \<and>
            sorted_wrt (\<ge>) (map recommendation_score res))"
proof (rule conjI; intro allI impI)
  fix res
  assume res: "recommend_for_user r uid top_n = Inr res"
  show "int (length res) \<le> top_n \<and> distinct (map article_id res) \<and>
        sorted_wrt (\<ge>) (map recommendation_score res)"
  proof (cases "get_user_history r uid = []")
    case False
    from False res obtain d where
      "collect_scores r (get_user_history r uid) [] (take 5 (get_user_history r uid)) = Inr d"
      "map article_id res = map fst (py_slice 0 top_n (sorted_reverse snd d))"
      "map recommendation_score res = map snd (py_slice 0 top_n (sorted_reverse snd d))"
      by (rule similarity_path)
    with n show ?thesis by (rule similarity_shape)
  next
    case True
    show ?thesis
    proof (cases "user_clicks r = []")
      case False
      from n popularity_path [OF True False res] distinct_value_counts
      show ?thesis
        by (rule shape_from_slice) (rule real_counts_sorted [OF sorted_value_counts])
    next
      case True
      from catalog_path [OF True res]
      have "map article_id res = py_slice 0 top_n (map col_article_id (articles_metadata r))"
        and "map recommendation_score res =
               map (\<lambda>j. real_of_int (top_n - int j)) [0..<length res]"
        by (simp_all add: py_slice_0 take_map)
      with n show ?thesis using catalog by (rule shape_synthetic)
    qed
  qed
next
  fix res
  assume res: "fa_recommend_for_user r uid top_n = Inr res"
  show "int (length res) \<le> top_n \<and> distinct (map article_id res) \<and>
        sorted_wrt (\<ge>) (map recommendation_score res)"
  proof (cases "get_user_history r uid = []")
    case False
    from False res obtain d where
      "collect_scores r (get_user_history r uid) [] (take 5 (get_user_history r uid)) = Inr d"
      "map article_id res = map fst (py_slice 0 top_n (sorted_reverse snd d))"
      "map recommendation_score res = map snd (py_slice 0 top_n (sorted_reverse snd d))"
      by (rule fa_similarity_path)
    with n show ?thesis by (rule similarity_shape)
  next
    case True
    from n fa_fallback_path [OF True res] store show ?thesis by (rule shape_synthetic)
  qed
qed

theorem result_list_shape_witness:
  "(0::int) \<le> 5 \<and> distinct (map col_article_id (articles_metadata example_store)) \<and>
   distinct (article_ids example_store) \<and>
   (\<exists>res. recommend_for_user example_store 42 5 = Inr res \<and> res \<noteq> [] \<and>
      int (length res) \<le> 5 \<and> distinct (map article_id res) \<and>
      sorted_wrt (\<ge>) (map recommendation_score res)) \<and>
   (\<exists>res. fa_recommend_for_user example_store 42 5 = Inr res \<and> res \<noteq> [] \<and>
      int (length res) \<le> 5 \<and> distinct (map article_id res) \<and>
      sorted_wrt (\<ge>) (map recommendation_score res))"
proof -
  have n: "(0::int) \<le> 5" by simp
  have catalog: "distinct (map col_article_id (articles_metadata example_store))"
    by (simp add: example_store_def)
  have store: "distinct (article_ids example_store)"
    by (simp add: example_store_def)
  from result_list_shape [OF n catalog store, of 42] n catalog store show ?thesis
    by (simp add: example_recommend example_fa_recommend)
qed

text \<open>
  C3 as stated, for every requested \<open>top_n\<close>, fails for a negative one: the slice
  \<open>[:top_n]\<close> then drops entries from the end, and what is left is longer than \<open>top_n\<close>.
\<close>

theorem negative_top_n_counterexample:
  "recommend_for_user example_store 42 (- 1) =
     Inr [\<lparr>article_id = 2, title = Val ''Article 2'', category = CategoryId (Val 1),
           words_count = 80, recommendation_score = 1\<rparr>] \<and>
   \<not> int (length [\<lparr>article_id = 2, title = Val ''Article 2'', category = CategoryId (Val 1),
           words_count = 80, recommendation_score = 1\<rparr>]) \<le> - 1"
  apply (simp add: recommend_for_user_def example_history example_similar)
  apply (simp add: sorted_reverse_def py_slice_def py_bound_def)
  apply (simp add: get_article_info_def example_store_def with_score_def default_title_def
      str_int_2)
  done

subsection \<open>An empty candidate set\<close>

text \<open>
  C10: when the history is not empty and the accumulation yields no candidate (each of
  the at most five seed items is unknown to the embedding store, or all its neighbours are
  already in the history), \<open>recommend_for_user\<close> returns the empty list; the fallback
  is taken for an empty history only. Both implementations.
\<close>

theorem no_candidates_no_fallback:
  assumes "get_user_history r uid \<noteq> []"
    and "\<forall>seed\<in>set (take 5 (get_user_history r uid)).
           seed \<notin> set (article_ids r) \<or>
           (\<exists>sim. get_similar_articles r seed 20 = Inr sim \<and>
                  fst ` set sim \<subseteq> set (get_user_history r uid))"
  shows "recommend_for_user r uid top_n = Inr [] \<and> fa_recommend_for_user r uid top_n = Inr []"
proof -
  let ?h = "get_user_history r uid"
  have "\<exists>sim. get_similar_articles r seed 20 = Inr sim \<and> fst ` set sim \<subseteq> set ?h"
    if "seed \<in> set (take 5 ?h)" for seed
  proof (cases "seed \<in> set (article_ids r)")
    case True
    with assms(2) that show ?thesis by blast
  next
    case False
    then have "index_of (article_ids r) seed = None"
      by (simp add: index_of_None)
    then have "get_similar_articles r seed 20 = Inr []"
      by (simp add: get_similar_articles_def)
    then show ?thesis by simp
  qed
  then have "collect_scores r ?h [] (take 5 ?h) = Inr []"
    by (intro collect_scores_all_read) blast
  with assms(1) show ?thesis
    by (simp add: recommend_for_user_def fa_recommend_for_user_def fa_get_user_history_eq
        fa_collect_scores_eq sorted_reverse_def py_slice_def)
qed

theorem no_candidates_no_fallback_witness:
  "get_user_history example_store 5 = [99] \<and>
   99 \<notin> set (article_ids example_store) \<and>
   recommend_for_user example_store 5 2 = Inr [] \<and>
   fa_recommend_for_user example_store 5 2 = Inr [] \<and>
   get_popular_articles example_store 2 \<noteq> Inr []"
proof -
  have unknown: "99 \<notin> set (article_ids example_store)"
    by (simp add: example_store_def)
  have h: "get_user_history example_store 5 \<noteq> []"
    by (simp add: example_history_5)
  have c: "\<forall>seed\<in>set (take 5 (get_user_history example_store 5)).
      seed \<notin> set (article_ids example_store) \<or>
      (\<exists>sim. get_similar_articles example_store seed 20 = Inr sim \<and>
             fst ` set sim \<subseteq> set (get_user_history example_store 5))"
    using unknown by (simp add: example_history_5)
  from no_candidates_no_fallback [OF h c, of 2] unknown show ?thesis
    by (simp add: example_popular example_history_5)
qed

subsection \<open>The fallback without history\<close>

text \<open>
  The class, for a user without history and a log that is not empty: the most read
  articles, by descending count, each with its count as score.
\<close>

lemma popular_fallback_by_count:
  assumes h: "get_user_history r uid = []" and log: "user_clicks r \<noteq> []"
    and n: "0 \<le> top_n" and res: "recommend_for_user r uid top_n = Inr res"
  shows "map (\<lambda>e. (article_id e, recommendation_score e)) res =
           take (nat top_n)
             (map (\<lambda>p. (fst p, real (snd p)))
                (value_counts (map click_article_id (user_clicks r)))) \<and>
         sorted_wrt (\<ge>) (map recommendation_score res) \<and>
         (\<forall>e\<in>set res. recommendation_score e =
            real (count_list (map click_article_id (user_clicks r)) (article_id e)))"
proof -
  let ?vc = "value_counts (map click_article_id (user_clicks r))"
  from popularity_path [OF h log res] n
  have ids: "map article_id res = map fst (take (nat top_n) ?vc)"
    and sc: "map recommendation_score res = map (real \<circ> snd) (take (nat top_n) ?vc)"
    by (simp_all add: py_slice_0_nonneg)
  from pairs_of_maps [OF ids sc]
  have pairs: "map (\<lambda>e. (article_id e, recommendation_score e)) res =
       map (\<lambda>p. (fst p, real (snd p))) (take (nat top_n) ?vc)"
    by (simp add: comp_def)
  have sorted: "sorted_wrt (\<ge>) (map recommendation_score res)"
    unfolding sc take_map [symmetric]
    by (rule sorted_wrt_take) (rule real_counts_sorted [OF sorted_value_counts])
  have "recommendation_score e = real (count_list (map click_article_id (user_clicks r)) (article_id e))"
    if "e \<in> set res" for e
  proof -
    from that have "(article_id e, recommendation_score e) \<in>
        set (map (\<lambda>e. (article_id e, recommendation_score e)) res)"
      by force
    then obtain p where "p \<in> set (take (nat top_n) ?vc)"
      and e: "article_id e = fst p" "recommendation_score e = real (snd p)"
      unfolding pairs by auto
    then have "(fst p, snd p) \<in> set ?vc" by (auto dest: in_set_takeD)
    then have "snd p = count_list (map click_article_id (user_clicks r)) (fst p)"
      by (rule value_counts_count)
    with e show ?thesis by simp
  qed
  with pairs sorted show ?thesis by (simp add: take_map)
qed

text \<open>
  C4 for a user without history while the log is not empty: the HTTP function returns the
  first identifiers of the store with the scores \<open>top_n - i\<close>; the class returns the most
  read articles with their click counts.
\<close>

theorem fa_fallback_ignores_popularity:
  "get_user_history example_store 8 = [] \<and>
   user_clicks example_store \<noteq> [] \<and>
   value_counts (map click_article_id (user_clicks example_store)) = [(4, 3), (1, 2), (99, 1)] \<and>
   fa_recommend_for_user example_store 8 2 =
     Inr [\<lparr>article_id = 1, title = Val ''Article 1'', category = CategoryId (Val 3),
           words_count = 120, recommendation_score = 2\<rparr>,
          \<lparr>article_id = 2, title = Val ''Article 2'', category = CategoryId (Val 1),
           words_count = 80, recommendation_score = 1\<rparr>] \<and>
   recommend_for_user example_store 8 2 =
     Inr [\<lparr>article_id = 4, title = Val ''Weather'', category = CategoryId (Val 7),
           words_count = 60, recommendation_score = 3\<rparr>,
          \<lparr>article_id = 1, title = Val ''Budget'', category = CategoryId (Val 3),
           words_count = 120, recommendation_score = 2\<rparr>]"
proof -
  have "fa_recommend_for_user example_store 8 2 =
     Inr [\<lparr>article_id = 1, title = Val ''Article 1'', category = CategoryId (Val 3),
           words_count = 120, recommendation_score = 2\<rparr>,
          \<lparr>article_id = 2, title = Val ''Article 2'', category = CategoryId (Val 1),
           words_count = 80, recommendation_score = 1\<rparr>]"
    apply (simp add: fa_recommend_for_user_def fa_get_user_history_eq example_history_8)
    apply (simp add: example_store_def py_slice_def py_bound_def enumerate_eq_zip upt_rec
        fa_get_article_info_def with_score_def default_title_def str_int_1 str_int_2)
    done
  moreover have "recommend_for_user example_store 8 2 = get_popular_articles example_store 2"
    by (simp add: recommend_for_user_def example_history_8)
  moreover have "user_clicks example_store \<noteq> []"
    by (simp add: example_store_def)
  ultimately show ?thesis
    by (simp add: example_history_8 example_value_counts example_popular)
qed

text \<open>
  With an empty click log and \<open>top_n \<ge> 0\<close>, what \<open>recommend_for_user\<close>
  returns is, in the class, the first \<open>top_n\<close> catalog rows in catalog order and, in the
  HTTP function, the first \<open>top_n\<close> identifiers of the store (by \<open>blob_article_ids\<close> the
  catalog identifiers cut to the number of matrix rows); the entry at position \<open>j\<close> has the
  score \<open>top_n - j\<close>, so the scores are \<open>top_n, top_n - 1, \<dots>, 1\<close> when \<open>top_n\<close> entries
  exist. It does return when no word count (in the HTTP function: nor category) cell of
  the catalog is empty.
\<close>

lemma empty_log_fallback:
  assumes log: "user_clicks r = []" and n: "0 \<le> top_n"
  shows "(\<forall>res. recommend_for_user r uid top_n = Inr res \<longrightarrow>
            map article_id res = take (nat top_n) (map col_article_id (articles_metadata r)) \<and>
            map recommendation_score res =
              map (\<lambda>j. real_of_int (top_n - int j)) [0..<length res]) \<and>
         (\<forall>res. fa_recommend_for_user r uid top_n = Inr res \<longrightarrow>
            map article_id res = take (nat top_n) (article_ids r) \<and>
            map recommendation_score res =
              map (\<lambda>j. real_of_int (top_n - int j)) [0..<length res]) \<and>
         ((\<forall>a\<in>set (articles_metadata r). col_words_count a \<noteq> Some NaN) \<longrightarrow>
            (\<exists>res. recommend_for_user r uid top_n = Inr res)) \<and>
         ((\<forall>a\<in>set (articles_metadata r).
              col_words_count a \<noteq> Some NaN \<and> col_category_id a \<noteq> Some NaN) \<longrightarrow>
            (\<exists>res. fa_recommend_for_user r uid top_n = Inr res)) \<and>
         (\<forall>m metadata clicks.
            article_ids (load_data_from_blob m metadata clicks) =
              take (length m) (map col_article_id metadata))"
proof -
  from log have h: "get_user_history r uid = []" by (simp add: get_user_history_def)
  have engine: "map article_id res = take (nat top_n) (map col_article_id (articles_metadata r)) \<and>
      map recommendation_score res = map (\<lambda>j. real_of_int (top_n - int j)) [0..<length res]"
    if "recommend_for_user r uid top_n = Inr res" for res
    using catalog_path [OF log that] n by (simp add: py_slice_0_nonneg take_map)
  have http: "map article_id res = take (nat top_n) (article_ids r) \<and>
      map recommendation_score res = map (\<lambda>j. real_of_int (top_n - int j)) [0..<length res]"
    if "fa_recommend_for_user r uid top_n = Inr res" for res
    using fa_fallback_path [OF h that] n by (simp add: py_slice_0_nonneg)
  have engine_returns: "\<exists>res. recommend_for_user r uid top_n = Inr res"
    if clean: "\<forall>a\<in>set (articles_metadata r). col_words_count a \<noteq> Some NaN"
  proof -
    from clean have "\<forall>a\<in>set (py_slice 0 top_n (articles_metadata r)). col_words_count a \<noteq> Some NaN"
      by (auto simp: py_slice_0 dest: in_set_takeD)
    from first_articles_returns [OF this] show ?thesis
      using h log by (simp add: recommend_for_user_def get_popular_articles_def)
  qed
  have http_returns: "\<exists>res. fa_recommend_for_user r uid top_n = Inr res"
    if clean: "\<forall>a\<in>set (articles_metadata r).
                 col_words_count a \<noteq> Some NaN \<and> col_category_id a \<noteq> Some NaN"
  proof -
    have "\<exists>y. (case fa_get_article_info r aid of Inl e \<Rightarrow> Inl e
             | Inr info \<Rightarrow> Inr (with_score info (real_of_int (top_n - int i)))) = Inr y" for i aid
      using fa_article_info_returns [OF clean, of aid] by auto
    then have "\<exists>ys. map_err (\<lambda>(i, aid). case fa_get_article_info r aid of Inl e \<Rightarrow> Inl e
             | Inr info \<Rightarrow> Inr (with_score info (real_of_int (top_n - int i))))
           (enumerate 0 (py_slice 0 top_n (article_ids r))) = Inr ys"
      by (intro map_err_returns) auto
    then show ?thesis
      using h by (simp add: fa_recommend_for_user_def fa_get_user_history_eq)
  qed
  from engine http engine_returns http_returns blob_article_ids show ?thesis by blast
qed

lemma empty_log_fallback_scenario:
  "user_clicks scenario_store = [] \<and> (0::int) \<le> 3 \<and>
   map col_article_id (articles_metadata scenario_store) = [10, 20, 30, 40, 50] \<and>
   (\<exists>res. recommend_for_user scenario_store 1 3 = Inr res \<and>
      map article_id res = [10, 20, 30] \<and> map recommendation_score res = [3, 2, 1]) \<and>
   (\<exists>res. fa_recommend_for_user scenario_store 1 3 = Inr res \<and>
      map article_id res = [10, 20, 30] \<and> map recommendation_score res = [3, 2, 1])"
proof -
  have log: "user_clicks scenario_store = []"
    by (simp add: scenario_store_def load_data_from_blob_def)
  have n: "(0::int) \<le> 3" by simp
  have clean: "\<forall>a\<in>set (articles_metadata scenario_store).
      col_words_count a \<noteq> Some NaN \<and> col_category_id a \<noteq> Some NaN"
    by (simp add: scenario_store_def load_data_from_blob_def id_only_catalog_def)
  note fallback = empty_log_fallback [OF log n, of 1]
  from fallback clean obtain res where
    res: "recommend_for_user scenario_store 1 3 = Inr res" by blast
  with fallback have ids: "map article_id res = [10, 20, 30]"
    and sc: "map recommendation_score res = map (\<lambda>j. real_of_int (3 - int j)) [0..<length res]"
    by (simp_all add: scenario_catalog_ids)
  from ids have "length res = 3" by (metis length_map length_Cons list.size(3) numeral_3_eq_3)
  with sc have "map recommendation_score res = [3, 2, 1]" by (simp add: upt3)
  with res ids have engine: "\<exists>res. recommend_for_user scenario_store 1 3 = Inr res \<and>
      map article_id res = [10, 20, 30] \<and> map recommendation_score res = [3, 2, 1]"
    by auto
  from fallback clean obtain res' where
    res': "fa_recommend_for_user scenario_store 1 3 = Inr res'" by blast
  with fallback have ids': "map article_id res' = [10, 20, 30]"
    and sc': "map recommendation_score res' = map (\<lambda>j. real_of_int (3 - int j)) [0..<length res']"
    by (simp_all add: scenario_article_ids)
  from ids' have "length res' = 3" by (metis length_map length_Cons list.size(3) numeral_3_eq_3)
  with sc' have "map recommendation_score res' = [3, 2, 1]" by (simp add: upt3)
  with res' ids' have "\<exists>res. fa_recommend_for_user scenario_store 1 3 = Inr res \<and>
      map article_id res = [10, 20, 30] \<and> map recommendation_score res = [3, 2, 1]"
    by auto
  with engine log scenario_catalog_ids show ?thesis by simp
qed

lemma str_int_30: "str_int 30 = ''30''"
  by (simp add: str_int_def str_nat.simps)

text \<open>
  C5 at the catalog 10, 20, 30, 40, 50 with an empty click log and a matrix of two rows:
  the HTTP function enumerates \<open>_article_ids[:3]\<close>, which holds the two identifiers that
  have a matrix row, and returns the items 10 and 20 with the scores 3 and 2; the class
  reads the catalog and returns the items 10, 20, 30 with the scores 3, 2, 1.
\<close>

theorem fa_fallback_short_matrix:
  "user_clicks short_store = [] \<and>
   map col_article_id (articles_metadata short_store) = [10, 20, 30, 40, 50] \<and>
   fa_recommend_for_user short_store 1 3 =
     Inr [\<lparr>article_id = 10, title = Val ''Article 10'', category = CategoryId (Val 0),
           words_count = 0, recommendation_score = 3\<rparr>,
          \<lparr>article_id = 20, title = Val ''Article 20'', category = CategoryId (Val 0),
           words_count = 0, recommendation_score = 2\<rparr>] \<and>
   recommend_for_user short_store 1 3 =
     Inr [\<lparr>article_id = 10, title = Val ''Article 10'', category = NA,
           words_count = 0, recommendation_score = 3\<rparr>,
          \<lparr>article_id = 20, title = Val ''Article 20'', category = NA,
           words_count = 0, recommendation_score = 2\<rparr>,
          \<lparr>article_id = 30, title = Val ''Article 30'', category = NA,
           words_count = 0, recommendation_score = 1\<rparr>]"
proof -
  have "fa_recommend_for_user short_store 1 3 =
     Inr [\<lparr>article_id = 10, title = Val ''Article 10'', category = CategoryId (Val 0),
           words_count = 0, recommendation_score = 3\<rparr>,
          \<lparr>article_id = 20, title = Val ''Article 20'', category = CategoryId (Val 0),
           words_count = 0, recommendation_score = 2\<rparr>]"
    apply (simp add: fa_recommend_for_user_def fa_get_user_history_def)
    apply (simp add: short_store_def load_data_from_blob_def id_only_catalog_def py_slice_def
        py_bound_def enumerate_eq_zip upt_rec fa_get_article_info_def with_score_def
        default_title_def str_int_10 str_int_20)
    done
  moreover have "recommend_for_user short_store 1 3 =
     Inr [\<lparr>article_id = 10, title = Val ''Article 10'', category = NA,
           words_count = 0, recommendation_score = 3\<rparr>,
          \<lparr>article_id = 20, title = Val ''Article 20'', category = NA,
           words_count = 0, recommendation_score = 2\<rparr>,
          \<lparr>article_id = 30, title = Val ''Article 30'', category = NA,
           words_count = 0, recommendation_score = 1\<rparr>]"
    apply (simp add: recommend_for_user_def get_user_history_def get_popular_articles_def)
    apply (simp add: short_store_def load_data_from_blob_def id_only_catalog_def py_slice_def
        py_bound_def default_title_def str_int_10 str_int_20 str_int_30)
    done
  moreover have "user_clicks short_store = []"
    by (simp add: short_store_def load_data_from_blob_def)
  moreover have "map col_article_id (articles_metadata short_store) = [10, 20, 30, 40, 50]"
    by (simp add: short_store_def load_data_from_blob_def id_only_catalog_def)
  ultimately show ?thesis by simp
qed

end
